theory Spec2Isabelle
  imports Main "HOL-Library.Word" "HOL-Library.Sublist" "HOL-Library.AList"
begin

section \<open>Promises in logical time\<close>

text \<open>
  The scripts are asynchronous JavaScript. A promise is modelled by what an observer can
  ever learn of it: the logical time at which it settles and how, or \<open>None\<close> when it
  never settles. Time is a natural number of ticks; only the order of times matters.
\<close>

type_synonym time = nat

datatype ('v, 'e) outcome = Fulfilled 'v | Rejected 'e

type_synonym ('v, 'e) promise = "(time \<times> ('v, 'e) outcome) option"

text \<open>
  The state of a promise while its executor's callbacks run. \<open>resolve\<close> and \<open>reject\<close>
  act on a pending promise only: a settled promise ignores every later call.
\<close>

datatype ('v, 'e) pstate = Pending | Settled "('v, 'e) outcome"

definition resolve :: "'v \<Rightarrow> ('v, 'e) pstate \<Rightarrow> ('v, 'e) pstate" where
  "resolve v st = (case st of Pending \<Rightarrow> Settled (Fulfilled v) | Settled r \<Rightarrow> Settled r)"

definition reject :: "'e \<Rightarrow> ('v, 'e) pstate \<Rightarrow> ('v, 'e) pstate" where
  "reject e st = (case st of Pending \<Rightarrow> Settled (Rejected e) | Settled r \<Rightarrow> Settled r)"

text \<open>
  A thrown or rejected value is either an \<open>Error\<close> object built by the scripts with
  \<open>new Error(message)\<close>, or an error object handed over by the runtime (the operating
  system, the file system, the bundler), which the scripts pass on as it is.
\<close>

datatype 'x error = Error string | Foreign 'x

subsection \<open>Template literals\<close>

definition digit_char :: "nat \<Rightarrow> char" where
  "digit_char d = ''0123456789'' ! (d mod 10)"

fun decimal_digits :: "nat \<Rightarrow> string" where
  "decimal_digits n =
     (if 10 \<le> n then decimal_digits (n div 10) @ [digit_char (n mod 10)] else [digit_char n])"

declare decimal_digits.simps [simp del]

text \<open>The text of an integer number inside a template literal.\<close>

definition number_string :: "int \<Rightarrow> string" where
  "number_string i = (if 0 \<le> i then decimal_digits (nat i) else CHR ''-'' # decimal_digits (nat (- i)))"

text \<open>JavaScript truthiness of a value that is a string or \<open>null\<close>.\<close>

definition truthy :: "string option \<Rightarrow> bool" where
  "truthy s = (case s of None \<Rightarrow> False | Some x \<Rightarrow> x \<noteq> [])"

section \<open>Child processes\<close>

text \<open>
  The events a \<open>ChildProcess\<close> emits: \<open>exit\<close> with the exit code and the signal (each a
  value or \<open>null\<close>), \<open>error\<close> with the runtime's error object, and \<open>close\<close>.
\<close>

datatype 'x child_event = Exit "int option" "string option" | ChildError 'x | Close

text \<open>
  \<open>spawn\<close> of build-utils.mjs registers three listeners inside the executor of the
  promise it returns:
  \<^verbatim>\<open>
      child.on('exit', (code, signal) => {
        if (signal && signal !== 'SIGTERM') {
          reject(new Error(`Process exited with signal ${ signal }`));
        } else if (code !== 0 && code !== null) {
          reject(new Error(`Process exited with code ${ code }`));
        }
      });
      child.on('error', (error) => { reject(error); });
      child.on('close', resolve);
  \<close>
\<close>

definition spawn_on_exit :: "int option \<Rightarrow> string option \<Rightarrow> (unit, 'x error) pstate \<Rightarrow> (unit, 'x error) pstate" where
  "spawn_on_exit code signal st =
     (if truthy signal \<and> signal \<noteq> Some ''SIGTERM''
      then reject (Error (''Process exited with signal '' @ (case signal of Some s \<Rightarrow> s | None \<Rightarrow> ''null''))) st
      else if code \<noteq> Some 0 \<and> code \<noteq> None
      then reject (Error (''Process exited with code '' @ (case code of Some c \<Rightarrow> number_string c | None \<Rightarrow> ''null''))) st
      else st)"

definition spawn_listeners :: "'x child_event \<Rightarrow> (unit, 'x error) pstate \<Rightarrow> (unit, 'x error) pstate" where
  "spawn_listeners ev st =
     (case ev of
        Exit code signal \<Rightarrow> spawn_on_exit code signal st
      | ChildError err \<Rightarrow> reject (Foreign err) st
      | Close \<Rightarrow> resolve () st)"

text \<open>The promise's state after the child has emitted the events \<open>evs\<close>, in this order.\<close>

definition deliver :: "('ev \<Rightarrow> ('v, 'e) pstate \<Rightarrow> ('v, 'e) pstate) \<Rightarrow> 'ev list \<Rightarrow> ('v, 'e) pstate" where
  "deliver listeners evs = foldl (\<lambda>st ev. listeners ev st) Pending evs"

definition spawn_state :: "'x child_event list \<Rightarrow> (unit, 'x error) pstate" where
  "spawn_state evs = deliver spawn_listeners evs"

text \<open>
  The same with time stamps: the promise settles at the time of the first event whose
  listener settles it, and never when no event does.
\<close>

fun settle_by :: "('ev \<Rightarrow> ('v, 'e) pstate \<Rightarrow> ('v, 'e) pstate) \<Rightarrow> (time \<times> 'ev) list \<Rightarrow> ('v, 'e) promise" where
  "settle_by listeners [] = None"
| "settle_by listeners ((t, ev) # evs) =
     (case listeners ev Pending of
        Settled r \<Rightarrow> Some (t, r)
      | Pending \<Rightarrow> settle_by listeners evs)"

section \<open>The Node process and its host\<close>

text \<open>
  A path is the list of its segments, and \<open>path.join\<close> appends segments. The ambient
  values the scripts read and never write: \<open>process.argv\<close>, \<open>process.env\<close>,
  \<open>os.platform()\<close>, \<open>process.arch\<close>, \<open>process.cwd()\<close>, and the repository root
  \<open>srcDir\<close> that build-utils.mjs derives from its own location.
\<close>

type_synonym path = "string list"

record host =
  argv :: "string list"
  environ :: "(string \<times> string) list"
  platform :: string
  arch :: string
  cwd :: path
  srcDir :: path

text \<open>
  \<^verbatim>\<open>get serial() { return process.argv.some(x => x === '--serial'); }\<close>
\<close>

definition serial :: "host \<Rightarrow> bool" where
  "serial h = list_ex (\<lambda>x. x = ''--serial'') (argv h)"

section \<open>Asynchronous operations and the Task Coordinator\<close>

text \<open>
  What an asynchronous call does, seen from outside: the effects it has on the world,
  each with the time it happens at, and the promise it returns. A task is a function of
  no argument that returns a promise (\<open>() => Promise<void>\<close> in the documentation of
  \<open>wait\<close>); in the model it takes the time it is called at.
\<close>

record ('f, 'v, 'e) activity =
  effects :: "(time \<times> 'f) list"
  result :: "('v, 'e) promise"

type_synonym ('f, 'e) task = "time \<Rightarrow> ('f, unit, 'e) activity"

text \<open>
  \<open>await p\<close> executed at time \<open>now\<close>: the code after it resumes when \<open>p\<close> has settled and
  not before \<open>now\<close>; it never resumes when \<open>p\<close> never settles.
\<close>

definition await :: "time \<Rightarrow> ('v, 'e) promise \<Rightarrow> ('v, 'e) promise" where
  "await now p = (case p of None \<Rightarrow> None | Some (t, r) \<Rightarrow> Some (max now t, r))"

text \<open>
  \<open>Promise.all\<close> takes any values: a value that is not a promise counts as a promise
  already fulfilled with it (\<open>Promise.resolve\<close>). The result is rejected with the
  rejection that comes first in time (the earlier element of the list when two come at
  the same tick), fulfilled with all the values once every element is fulfilled, and
  pending for ever otherwise.
\<close>

datatype ('v, 'e) js_value = Plain 'v | Thenable "('v, 'e) promise"

definition promise_resolve :: "time \<Rightarrow> ('v, 'e) js_value \<Rightarrow> ('v, 'e) promise" where
  "promise_resolve now x = (case x of Plain v \<Rightarrow> Some (now, Fulfilled v) | Thenable p \<Rightarrow> await now p)"

fun first_rejection :: "('v, 'e) promise list \<Rightarrow> (time \<times> 'e) option" where
  "first_rejection [] = None"
| "first_rejection (p # ps) =
     (case p of
        Some (t, Rejected e) \<Rightarrow>
          (case first_rejection ps of
             Some (t', e') \<Rightarrow> if t \<le> t' then Some (t, e) else Some (t', e')
           | None \<Rightarrow> Some (t, e))
      | _ \<Rightarrow> first_rejection ps)"

fun all_fulfilled :: "time \<Rightarrow> ('v, 'e) promise list \<Rightarrow> (time \<times> 'v list) option" where
  "all_fulfilled now [] = Some (now, [])"
| "all_fulfilled now (p # ps) =
     (case p of
        Some (t, Fulfilled v) \<Rightarrow>
          (case all_fulfilled now ps of
             Some (t', vs) \<Rightarrow> Some (max t t', v # vs)
           | None \<Rightarrow> None)
      | _ \<Rightarrow> None)"

definition promise_all :: "time \<Rightarrow> ('v, 'e) js_value list \<Rightarrow> ('v list, 'e) promise" where
  "promise_all now xs =
     (let ps = map (promise_resolve now) xs in
      case first_rejection ps of
        Some (t, e) \<Rightarrow> Some (t, Rejected e)
      | None \<Rightarrow>
          (case all_fulfilled now ps of
             Some (t, vs) \<Rightarrow> Some (t, Fulfilled vs)
           | None \<Rightarrow> None))"

text \<open>
  \<^verbatim>\<open>
  async wait(...tasks) {
    if (this.serial) {
      for (const task of tasks) {
        await task();
      }
    } else {
      await Promise.all(tasks.map(t => t()));
    }
  }
  \<close>
  A coordination call is recorded as the calls it makes, in the order it makes them
  (each with its time and with what the task did), and the promise it returns.
\<close>

record ('f, 'e) coordination =
  calls :: "(time \<times> ('f, unit, 'e) activity) list"
  completion :: "(unit, 'e) promise"

fun wait_serial :: "time \<Rightarrow> ('f, 'e) task list \<Rightarrow> ('f, 'e) coordination" where
  "wait_serial now [] = \<lparr>calls = [], completion = Some (now, Fulfilled ())\<rparr>"
| "wait_serial now (task # tasks) =
     (let r = task now in
      case await now (result r) of
        None \<Rightarrow> \<lparr>calls = [(now, r)], completion = None\<rparr>
      | Some (t, Rejected e) \<Rightarrow> \<lparr>calls = [(now, r)], completion = Some (t, Rejected e)\<rparr>
      | Some (t, Fulfilled v) \<Rightarrow>
          (let w = wait_serial t tasks in \<lparr>calls = (now, r) # calls w, completion = completion w\<rparr>))"

definition wait_parallel :: "time \<Rightarrow> ('f, 'e) task list \<Rightarrow> ('f, 'e) coordination" where
  "wait_parallel now tasks =
     (let rs = map (\<lambda>t. t now) tasks in
      \<lparr>calls = map (\<lambda>r. (now, r)) rs,
       completion =
         (case promise_all now (map (\<lambda>r. Thenable (result r)) rs) of
            None \<Rightarrow> None
          | Some (t, Fulfilled vs) \<Rightarrow> Some (t, Fulfilled ())
          | Some (t, Rejected e) \<Rightarrow> Some (t, Rejected e))\<rparr>)"

definition wait :: "host \<Rightarrow> time \<Rightarrow> ('f, 'e) task list \<Rightarrow> ('f, 'e) coordination" where
  "wait h now tasks = (if serial h then wait_serial now tasks else wait_parallel now tasks)"

section \<open>Effects on the world and what the world answers\<close>

text \<open>
  JavaScript strings whose characters matter one by one (the body of a checksum
  manifest) are lists of UTF-16 code units.
\<close>

type_synonym js_string = "16 word list"

datatype arg = Lit string | File path

record invocation =
  command :: string
  arguments :: "arg list"
  directory :: path
  stdio :: string
  environment :: "(string \<times> string) list option"

text \<open>The options object of the call \<open>download(url, path, { ... })\<close>, with its two first arguments.\<close>

record descriptor =
  url :: string
  dest :: path
  expectedChecksum :: "js_string option"
  checksumAlgorithm :: string
  access :: nat

datatype effect =
    Spawned invocation
  | CopyFile path path
  | WebpackRun
  | ConsoleLog string
  | GetResource string
  | Download descriptor
  | Mkdir path

text \<open>What the bundler passes to the callback of \<open>run\<close>: an error, or the statistics.\<close>

datatype 'x bundle_report = BundleError 'x | Stats bool string string

text \<open>
  The world outside the scripts answers each request: the events of a child process
  spawned at a given time, the bundler's callback, and the promises of \<open>copyFile\<close>,
  \<open>mkdir\<close>, and of \<open>getResource\<close> and \<open>download\<close>, the two functions of download.mjs that
  lima.mjs imports.
\<close>

record 'x world =
  child_events :: "invocation \<Rightarrow> time \<Rightarrow> (time \<times> 'x child_event) list"
  webpack_done :: "time \<Rightarrow> (time \<times> 'x bundle_report) option"
  copy_done :: "path \<Rightarrow> path \<Rightarrow> time \<Rightarrow> (unit, 'x error) promise"
  mkdir_done :: "path \<Rightarrow> time \<Rightarrow> (unit, 'x error) promise"
  resource_done :: "string \<Rightarrow> time \<Rightarrow> (js_string, 'x error) promise"
  download_done :: "descriptor \<Rightarrow> time \<Rightarrow> (unit, 'x error) promise"

subsection \<open>Sequencing inside an async function\<close>

text \<open>
  \<open>const v = await r; k(v)\<close> inside an async function: the effects of \<open>r\<close>, then, when
  \<open>r\<close> is fulfilled, those of the continuation, which starts when \<open>r\<close> has settled. A
  rejection of \<open>r\<close> is thrown at the \<open>await\<close> and rejects the function's promise.
\<close>

definition then_do ::
  "time \<Rightarrow> ('f, 'v, 'e) activity \<Rightarrow> (time \<Rightarrow> 'v \<Rightarrow> ('f, 'u, 'e) activity) \<Rightarrow> ('f, 'u, 'e) activity" where
  "then_do now r k =
     (case await now (result r) of
        None \<Rightarrow> \<lparr>effects = effects r, result = None\<rparr>
      | Some (t, Rejected e) \<Rightarrow> \<lparr>effects = effects r, result = Some (t, Rejected e)\<rparr>
      | Some (t, Fulfilled v) \<Rightarrow>
          (let r' = k t v in \<lparr>effects = effects r @ effects r', result = result r'\<rparr>))"

definition returned :: "time \<Rightarrow> 'v \<Rightarrow> ('f, 'v, 'e) activity" where
  "returned now v = \<lparr>effects = [], result = Some (now, Fulfilled v)\<rparr>"

definition thrown :: "time \<Rightarrow> 'e \<Rightarrow> ('f, 'v, 'e) activity" where
  "thrown now e = \<lparr>effects = [], result = Some (now, Rejected e)\<rparr>"

section \<open>build-utils.mjs: the Process Supervisor and the build tasks\<close>

text \<open>
  \<^verbatim>\<open>
  spawn(command, ...args) {
    const options = { cwd: this.srcDir, stdio: 'inherit' };
    if (args.concat().pop() instanceof Object) {
      Object.assign(options, args.pop());
    }
    const child = childProcess.spawn(command, args, options);
    const result = new Promise((resolve, reject) => { ... });
    result.child = child;
    return result;
  }
  \<close>
  The trailing options object, when there is one, is a separate argument of the model.
\<close>

record spawn_options =
  opt_cwd :: "path option"
  opt_stdio :: "string option"
  opt_env :: "(string \<times> string) list option"

definition spawn_invocation :: "host \<Rightarrow> string \<Rightarrow> arg list \<Rightarrow> spawn_options option \<Rightarrow> invocation" where
  "spawn_invocation h cmd as opts =
     \<lparr>command = cmd,
      arguments = as,
      directory = (case opts of None \<Rightarrow> srcDir h
                   | Some p \<Rightarrow> (case opt_cwd p of None \<Rightarrow> srcDir h | Some d \<Rightarrow> d)),
      stdio = (case opts of None \<Rightarrow> ''inherit''
               | Some p \<Rightarrow> (case opt_stdio p of None \<Rightarrow> ''inherit'' | Some s \<Rightarrow> s)),
      environment = (case opts of None \<Rightarrow> None | Some p \<Rightarrow> opt_env p)\<rparr>"

definition spawn ::
  "host \<Rightarrow> 'x world \<Rightarrow> string \<Rightarrow> arg list \<Rightarrow> spawn_options option \<Rightarrow> time \<Rightarrow> (effect, unit, 'x error) activity" where
  "spawn h w cmd as opts now =
     (let inv = spawn_invocation h cmd as opts in
      \<lparr>effects = [(now, Spawned inv)],
       result = settle_by spawn_listeners (child_events w inv now)\<rparr>)"

text \<open>
  \<^verbatim>\<open>
  buildJavaScript() {
    return new Promise((resolve, reject) => {
      webpack(this.webpackConfig).run((err, stats) => {
        if (err) { return reject(err); }
        if (stats.hasErrors()) {
          return reject(new Error(stats.toString({ colors: true, errorDetails: true })));
        }
        console.log(stats.toString({ colors: true }));
        resolve();
      });
    });
  }
  \<close>
  \<open>Stats hasErrors detailed plain\<close> carries the answer of \<open>hasErrors()\<close> and the two
  renderings of the statistics.
\<close>

definition buildJavaScript :: "host \<Rightarrow> 'x world \<Rightarrow> time \<Rightarrow> (effect, unit, 'x error) activity" where
  "buildJavaScript h w now =
     (case webpack_done w now of
        None \<Rightarrow> \<lparr>effects = [(now, WebpackRun)], result = None\<rparr>
      | Some (t, BundleError err) \<Rightarrow>
          \<lparr>effects = [(now, WebpackRun)], result = Some (t, Rejected (Foreign err))\<rparr>
      | Some (t, Stats hasErrors detailed plain) \<Rightarrow>
          (if hasErrors
           then \<lparr>effects = [(now, WebpackRun)], result = Some (t, Rejected (Error detailed))\<rparr>
           else \<lparr>effects = [(now, WebpackRun), (t, ConsoleLog plain)], result = Some (t, Fulfilled ())\<rparr>))"

text \<open>
  \<^verbatim>\<open>
  async buildWSLHelper() {
    const outFile = path.join(this.srcDir, 'resources', 'linux', 'bin', 'wsl-helper');
    await this.spawn('go', 'build', '-ldflags', '-d -s -w', '-o', outFile, '.', {
      cwd: path.join(this.srcDir, 'src', 'go', 'wsl-helper'),
      env: { ...process.env, GOOS: 'linux' }
    });
  }
  \<close>
\<close>

definition buildWSLHelper :: "host \<Rightarrow> 'x world \<Rightarrow> time \<Rightarrow> (effect, unit, 'x error) activity" where
  "buildWSLHelper h w now =
     (let outFile = srcDir h @ [''resources'', ''linux'', ''bin'', ''wsl-helper''] in
      then_do now
        (spawn h w ''go'' [Lit ''build'', Lit ''-ldflags'', Lit ''-d -s -w'', Lit ''-o'', File outFile, Lit ''.'']
           (Some \<lparr>opt_cwd = Some (srcDir h @ [''src'', ''go'', ''wsl-helper'']),
                  opt_stdio = None,
                  opt_env = Some (AList.update ''GOOS'' ''linux'' (environ h))\<rparr>) now)
        (\<lambda>t _. returned t ()))"

text \<open>
  \<^verbatim>\<open>
  async buildNerdctlStub(os) {
    if (!['windows', 'linux'].includes(os)) {
      throw new Error(`Unexpected os of ${ os }`);
    }
    let platDir, basename, parentDir, outFile, sourceFile, destFile;
    if (os === 'windows') {
      platDir = 'win32';
      parentDir = path.join(this.srcDir, 'resources', platDir, 'bin');
      sourceFile = outFile = path.join(parentDir, 'nerdctl.exe');
      destFile = path.join(parentDir, 'docker.exe');
    } else {
      platDir = 'linux';
      parentDir = path.join(this.srcDir, 'resources', platDir, 'bin');
      outFile = path.join(parentDir, 'nerdctl-stub');
      sourceFile = path.join(parentDir, 'nerdctl');
      destFile = path.join(parentDir, 'docker');
    }
    await this.spawn('go', 'build', '-ldflags', '-s -w', '-o', outFile, '.', {
      cwd: path.join(this.srcDir, 'src', 'go', 'nerdctl-stub'),
      env: { ...process.env, GOOS: os }
    });
    await fs.promises.copyFile(sourceFile, destFile);
  }
  \<close>
  The three files, in the order \<open>(outFile, sourceFile, destFile)\<close>:
\<close>

definition stub_files :: "host \<Rightarrow> string \<Rightarrow> path \<times> path \<times> path" where
  "stub_files h os =
     (if os = ''windows''
      then (let parentDir = srcDir h @ [''resources'', ''win32'', ''bin''] in
            (parentDir @ [''nerdctl.exe''], parentDir @ [''nerdctl.exe''], parentDir @ [''docker.exe'']))
      else (let parentDir = srcDir h @ [''resources'', ''linux'', ''bin''] in
            (parentDir @ [''nerdctl-stub''], parentDir @ [''nerdctl''], parentDir @ [''docker''])))"

definition stub_build :: "host \<Rightarrow> 'x world \<Rightarrow> string \<Rightarrow> time \<Rightarrow> (effect, unit, 'x error) activity" where
  "stub_build h w os now =
     (case stub_files h os of (outFile, sourceFile, destFile) \<Rightarrow>
        spawn h w ''go'' [Lit ''build'', Lit ''-ldflags'', Lit ''-s -w'', Lit ''-o'', File outFile, Lit ''.'']
          (Some \<lparr>opt_cwd = Some (srcDir h @ [''src'', ''go'', ''nerdctl-stub'']),
                 opt_stdio = None,
                 opt_env = Some (AList.update ''GOOS'' os (environ h))\<rparr>) now)"

definition copyFile :: "'x world \<Rightarrow> path \<Rightarrow> path \<Rightarrow> time \<Rightarrow> (effect, unit, 'x error) activity" where
  "copyFile w src dst now = \<lparr>effects = [(now, CopyFile src dst)], result = copy_done w src dst now\<rparr>"

definition buildNerdctlStub :: "host \<Rightarrow> 'x world \<Rightarrow> string \<Rightarrow> time \<Rightarrow> (effect, unit, 'x error) activity" where
  "buildNerdctlStub h w os now =
     (if os \<notin> set [''windows'', ''linux'']
      then thrown now (Error (''Unexpected os of '' @ os))
      else (case stub_files h os of (outFile, sourceFile, destFile) \<Rightarrow>
        then_do now (stub_build h w os now)
          (\<lambda>t _. then_do t (copyFile w sourceFile destFile t)
            (\<lambda>t' _. returned t' ()))))"

text \<open>
  \<^verbatim>\<open>
  buildMain() {
    const tasks = [() => this.buildJavaScript()];
    if (os.platform().startsWith('win')) {
      tasks.push(() => this.buildWSLHelper());
      tasks.push(() => this.buildNerdctlStub('windows'));
      tasks.push(() => this.buildNerdctlStub('linux'));
    }
    return this.wait(...tasks);
  }
  \<close>
\<close>

definition buildMain_tasks :: "host \<Rightarrow> 'x world \<Rightarrow> (effect, 'x error) task list" where
  "buildMain_tasks h w =
     [buildJavaScript h w] @
     (if prefix ''win'' (platform h)
      then [buildWSLHelper h w, buildNerdctlStub h w ''windows'', buildNerdctlStub h w ''linux'']
      else [])"

definition buildMain :: "host \<Rightarrow> 'x world \<Rightarrow> time \<Rightarrow> (effect, 'x error) coordination" where
  "buildMain h w now = wait h now (buildMain_tasks h w)"

section \<open>lima.mjs: fetching and unpacking Lima\<close>

definition limaRepo :: string where
  "limaRepo = ''https://github.com/rancher-sandbox/lima-and-qemu''"

definition limaTag :: string where
  "limaTag = ''v1.23''"

definition alpineLimaRepo :: string where
  "alpineLimaRepo = ''https://github.com/lima-vm/alpine-lima''"

definition alpineLimaTag :: string where
  "alpineLimaTag = ''v0.2.16''"

definition alpineLimaEdition :: string where
  "alpineLimaEdition = ''rd''"

definition alpineLimaVersion :: string where
  "alpineLimaVersion = ''3.15.4''"

text \<open>\<open>fs.constants.W_OK\<close>\<close>

definition W_OK :: nat where
  "W_OK = 2"

subsection \<open>\<open>String.prototype.split\<close> on white space\<close>

text \<open>
  The code units the regular expression class \<open>\s\<close> matches: the white space and the
  line terminators of ECMAScript.
\<close>

definition js_whitespace :: "16 word \<Rightarrow> bool" where
  "js_whitespace c =
     (c \<in> set [0x0009, 0x000A, 0x000B, 0x000C, 0x000D, 0x0020, 0x00A0, 0x1680,
                0x2028, 0x2029, 0x202F, 0x205F, 0x3000, 0xFEFF]
      \<or> (0x2000 \<le> c \<and> c \<le> 0x200A))"

text \<open>
  \<open>s.split(/\s+/)\<close>: the string is cut at every maximal run of separators. The result
  is never empty; a string that starts with a separator has an empty first field.
\<close>

function js_split :: "('c \<Rightarrow> bool) \<Rightarrow> 'c list \<Rightarrow> 'c list list" where
  "js_split sep [] = [[]]"
| "js_split sep (c # cs) =
     (if sep c then [] # js_split sep (dropWhile sep cs)
      else (case js_split sep cs of
              [] \<Rightarrow> [[c]]
            | f # fs \<Rightarrow> (c # f) # fs))"
  by pat_completeness auto
termination
  by (relation "measure (\<lambda>(sep, cs). length cs)") (auto simp: length_dropWhile_le less_Suc_eq_le)

text \<open>\<open>body.split(/\s+/)[0]\<close>; an array without an element 0 would give \<open>undefined\<close>.\<close>

definition first_field :: "js_string \<Rightarrow> js_string option" where
  "first_field body = (case js_split js_whitespace body of [] \<Rightarrow> None | f # fs \<Rightarrow> Some f)"

subsection \<open>Calls into download.mjs and the file system\<close>

text \<open>
  \<open>getResource(url)\<close> and \<open>download(url, path, options)\<close> are imported from download.mjs.
  A call is an effect on the world, and the world answers with the promise.
\<close>

definition call_getResource :: "'x world \<Rightarrow> string \<Rightarrow> time \<Rightarrow> (effect, js_string, 'x error) activity" where
  "call_getResource w u now = \<lparr>effects = [(now, GetResource u)], result = resource_done w u now\<rparr>"

definition call_download :: "'x world \<Rightarrow> descriptor \<Rightarrow> time \<Rightarrow> (effect, unit, 'x error) activity" where
  "call_download w d now = \<lparr>effects = [(now, Download d)], result = download_done w d now\<rparr>"

definition mkdir :: "'x world \<Rightarrow> path \<Rightarrow> time \<Rightarrow> (effect, unit, 'x error) activity" where
  "mkdir w p now = \<lparr>effects = [(now, Mkdir p)], result = mkdir_done w p now\<rparr>"

subsection \<open>\<open>getLima\<close> and \<open>getAlpineLima\<close>\<close>

text \<open>
  The extraction at the end of \<open>getLima\<close> spawns \<open>tar\<close> with \<open>childProcess.spawn\<close> and builds
  its own promise, with a listener for \<open>exit\<close> and none for \<open>error\<close> or \<open>close\<close>:
  \<^verbatim>\<open>
  const child = childProcess.spawn('/usr/bin/tar', ['-xf', tarPath],
    { cwd: limaDir, stdio: 'inherit' });
  await new Promise((resolve, reject) => {
    child.on('exit', (code, signal) => {
      if (code === 0) {
        resolve();
      } else {
        reject(new Error(`Lima extract failed with ${ code || signal }`));
      }
    });
  });
  \<close>
  \<open>code || signal\<close> is the code when it is a number other than 0, and the signal
  otherwise; \<open>null\<close> is printed as \<open>null\<close>.
\<close>

definition code_or_signal :: "int option \<Rightarrow> string option \<Rightarrow> string" where
  "code_or_signal code signal =
     (case code of
        Some c \<Rightarrow> if c \<noteq> 0 then number_string c
                  else (case signal of Some s \<Rightarrow> s | None \<Rightarrow> ''null'')
      | None \<Rightarrow> (case signal of Some s \<Rightarrow> s | None \<Rightarrow> ''null''))"

definition lima_on_exit :: "int option \<Rightarrow> string option \<Rightarrow> (unit, 'x error) pstate \<Rightarrow> (unit, 'x error) pstate" where
  "lima_on_exit code signal st =
     (if code = Some 0 then resolve () st
      else reject (Error (''Lima extract failed with '' @ code_or_signal code signal)) st)"

definition lima_listeners :: "'x child_event \<Rightarrow> (unit, 'x error) pstate \<Rightarrow> (unit, 'x error) pstate" where
  "lima_listeners ev st =
     (case ev of
        Exit code signal \<Rightarrow> lima_on_exit code signal st
      | ChildError err \<Rightarrow> st
      | Close \<Rightarrow> st)"

definition extract_state :: "'x child_event list \<Rightarrow> (unit, 'x error) pstate" where
  "extract_state evs = deliver lima_listeners evs"

definition extract_archive :: "'x world \<Rightarrow> path \<Rightarrow> path \<Rightarrow> time \<Rightarrow> (effect, unit, 'x error) activity" where
  "extract_archive w tarPath limaDir now =
     (let child = \<lparr>command = ''/usr/bin/tar'', arguments = [Lit ''-xf'', File tarPath],
                   directory = limaDir, stdio = ''inherit'', environment = None\<rparr> in
      \<lparr>effects = [(now, Spawned child)],
       result = await now (settle_by lima_listeners (child_events w child now))\<rparr>)"

text \<open>
  \<^verbatim>\<open>
  async function getLima(platform) {
    const url = `${ limaRepo }/releases/download/${ limaTag }/lima-and-qemu.${ platform }.tar.gz`;
    const expectedChecksum = (await getResource(`${ url }.sha512sum`)).split(/\s+/)[0];
    const resourcesDir = path.join(process.cwd(), 'resources', platform);
    const limaDir = path.join(resourcesDir, 'lima');
    const tarPath = path.join(resourcesDir, `lima-${ limaTag }.${ platform }.tgz`);
    await download(url, tarPath, {
      expectedChecksum, checksumAlgorithm: 'sha512', access: fs.constants.W_OK
    });
    await fs.promises.mkdir(limaDir, { recursive: true });
    ... the extraction above ...
  }
  \<close>
\<close>

definition lima_url :: "string \<Rightarrow> string" where
  "lima_url plat = limaRepo @ ''/releases/download/'' @ limaTag @ ''/lima-and-qemu.'' @ plat @ ''.tar.gz''"

definition lima_descriptor :: "host \<Rightarrow> string \<Rightarrow> js_string option \<Rightarrow> descriptor" where
  "lima_descriptor h plat expected =
     \<lparr>url = lima_url plat,
      dest = cwd h @ [''resources'', plat] @ [''lima-'' @ limaTag @ ''.'' @ plat @ ''.tgz''],
      expectedChecksum = expected,
      checksumAlgorithm = ''sha512'',
      access = W_OK\<rparr>"

definition getLima :: "host \<Rightarrow> 'x world \<Rightarrow> string \<Rightarrow> time \<Rightarrow> (effect, unit, 'x error) activity" where
  "getLima h w plat now =
     then_do now (call_getResource w (lima_url plat @ ''.sha512sum'') now)
       (\<lambda>t1 body.
          (let expected = first_field body;
               resourcesDir = cwd h @ [''resources'', plat];
               limaDir = resourcesDir @ [''lima''];
               tarPath = resourcesDir @ [''lima-'' @ limaTag @ ''.'' @ plat @ ''.tgz'']
           in then_do t1 (call_download w (lima_descriptor h plat expected) t1)
                (\<lambda>t2 _. then_do t2 (mkdir w limaDir t2)
                   (\<lambda>t3 _. extract_archive w tarPath limaDir t3))))"

text \<open>
  \<^verbatim>\<open>
  async function getAlpineLima(arch, platform) {
    const url = `${ alpineLimaRepo }/releases/download/${ alpineLimaTag }/alpine-lima-${ alpineLimaEdition }-${ alpineLimaVersion }-${ arch }.iso`;
    const destPath = path.join(process.cwd(), 'resources', platform,
      `alpine-lima-${ alpineLimaTag }-${ alpineLimaEdition }-${ alpineLimaVersion }.iso`);
    const expectedChecksum = (await getResource(`${ url }.sha512sum`)).split(/\s+/)[0];
    await download(url, destPath, {
      expectedChecksum, checksumAlgorithm: 'sha512', access: fs.constants.W_OK
    });
  }
  \<close>
\<close>

definition alpine_url :: "string \<Rightarrow> string" where
  "alpine_url ar = alpineLimaRepo @ ''/releases/download/'' @ alpineLimaTag @ ''/alpine-lima-''
     @ alpineLimaEdition @ ''-'' @ alpineLimaVersion @ ''-'' @ ar @ ''.iso''"

definition alpine_descriptor :: "host \<Rightarrow> string \<Rightarrow> string \<Rightarrow> js_string option \<Rightarrow> descriptor" where
  "alpine_descriptor h ar plat expected =
     \<lparr>url = alpine_url ar,
      dest = cwd h @ [''resources'', plat,
               ''alpine-lima-'' @ alpineLimaTag @ ''-'' @ alpineLimaEdition @ ''-'' @ alpineLimaVersion @ ''.iso''],
      expectedChecksum = expected,
      checksumAlgorithm = ''sha512'',
      access = W_OK\<rparr>"

definition getAlpineLima :: "host \<Rightarrow> 'x world \<Rightarrow> string \<Rightarrow> string \<Rightarrow> time \<Rightarrow> (effect, unit, 'x error) activity" where
  "getAlpineLima h w ar plat now =
     then_do now (call_getResource w (alpine_url ar @ ''.sha512sum'') now)
       (\<lambda>t1 body.
          then_do t1 (call_download w (alpine_descriptor h ar plat (first_field body)) t1)
            (\<lambda>t2 _. returned t2 ()))"

subsection \<open>The entry point\<close>

text \<open>
  \<^verbatim>\<open>
  export default function run() {
    let platform = os.platform();
    const arch = 'x86_64';
    const promises = [];
    if (platform === 'darwin') {
      platform = 'macos';
      if (process.env.M1 !== '0' && (process.env.M1 || process.arch === 'arm64')) {
        const m1arch = 'aarch64';
        const m1platform = `macos-${ m1arch }`;
        promises.push([getLima(m1platform), getAlpineLima(m1arch, m1platform)]);
      }
    }
    promises.push([getLima(platform), getAlpineLima(arch, platform)]);
    return Promise.all(promises);
  }
  \<close>
  Each element of \<open>promises\<close> is an array of two promises, and \<open>Promise.all\<close> is given the
  array of these arrays. In the model a promise in such an array stands with the effects
  of the call that made it.
\<close>

definition run_arrays :: "host \<Rightarrow> 'x world \<Rightarrow> time \<Rightarrow> (effect, unit, 'x error) activity list list" where
  "run_arrays h w now =
     (let m1 = map_of (environ h) ''M1'';
          plat = (if platform h = ''darwin'' then ''macos'' else platform h)
      in (if platform h = ''darwin'' \<and> m1 \<noteq> Some ''0'' \<and> (truthy m1 \<or> arch h = ''arm64'')
          then [[getLima h w ''macos-aarch64'' now, getAlpineLima h w ''aarch64'' ''macos-aarch64'' now]]
          else [])
         @ [[getLima h w plat now, getAlpineLima h w ''x86_64'' plat now]])"

definition run ::
  "host \<Rightarrow> 'x world \<Rightarrow> time \<Rightarrow> (effect, (effect, unit, 'x error) activity list list, 'x error) activity" where
  "run h w now =
     (let promises = run_arrays h w now in
      \<lparr>effects = concat (map (\<lambda>arr. concat (map effects arr)) promises),
       result = promise_all now (map Plain promises)\<rparr>)"

section \<open>The Resource Fetcher\<close>

text \<open>
  Modelled from the spec: \<open>download\<close> of scripts/lib/download.mjs, the Resource Fetcher.
  lima.mjs imports it, and its source is not among the files of the repository. The
  model follows section 4.3 of the specification sentence by sentence. A Download
  Descriptor is the source URL, the destination path, the expected checksum, the
  checksum algorithm and, when one is required, the access mode of the destination.
\<close>

type_synonym content = "8 word list"

record request =
  source :: string
  destination :: path
  expected :: js_string
  algorithm :: string
  required_access :: "nat option"

text \<open>
  Modelled from the spec: the errors of a fetch (section 7): a request or transfer error,
  and a checksum mismatch after the download, which names the expected and the actual
  digest.
\<close>

datatype fetch_error = NetworkFailure | IntegrityFailure js_string js_string

text \<open>
  Modelled from the spec: what a fetch reads and changes. The files with their contents,
  the directories, the access modes guaranteed on each path, and the log of the network
  requests issued so far, which is what a mock transport counts.
\<close>

record storage =
  files :: "path \<Rightarrow> content option"
  folders :: "path set"
  permitted :: "path \<Rightarrow> nat set"
  requests :: "string list"

text \<open>
  Modelled from the spec: the download proper. The destination directory is created
  with its ancestors, the request is issued, the body is written to the destination, the
  checksum of the written file is computed again; on a mismatch the call fails and the
  file stays; on a match the required access mode is guaranteed and the call succeeds.
  \<open>digest\<close> computes the checksum of a content with a named algorithm, and \<open>remote\<close> is
  what the network holds at each URL, if anything.
\<close>

definition transfer ::
  "(string \<Rightarrow> content \<Rightarrow> js_string) \<Rightarrow> (string \<Rightarrow> content option) \<Rightarrow> request \<Rightarrow> storage
   \<Rightarrow> (fetch_error + unit) \<times> storage" where
  "transfer digest remote r st =
     (let st1 = st\<lparr>folders := folders st \<union> set (prefixes (butlast (destination r))),
                   requests := requests st @ [source r]\<rparr>
      in case remote (source r) of
           None \<Rightarrow> (Inl NetworkFailure, st1)
         | Some body \<Rightarrow>
             (let st2 = st1\<lparr>files := (files st1)(destination r \<mapsto> body)\<rparr>;
                  actual = digest (algorithm r) body
              in if actual \<noteq> expected r
                 then (Inl (IntegrityFailure (expected r) actual), st2)
                 else (Inr (),
                       (case required_access r of
                          None \<Rightarrow> st2
                        | Some a \<Rightarrow>
                            st2\<lparr>permitted := (permitted st2)
                                   (destination r := insert a (permitted st2 (destination r)))\<rparr>))))"

text \<open>
  Modelled from the spec: the Resource Fetcher. Before downloading it looks for a file at
  the destination; when there is one whose checksum, computed with the descriptor's
  algorithm, is the expected one, the fetch is already satisfied and nothing else
  happens; on a mismatch or without a file it downloads.
\<close>

definition download ::
  "(string \<Rightarrow> content \<Rightarrow> js_string) \<Rightarrow> (string \<Rightarrow> content option) \<Rightarrow> request \<Rightarrow> storage
   \<Rightarrow> (fetch_error + unit) \<times> storage" where
  "download digest remote r st =
     (case files st (destination r) of
        Some c \<Rightarrow>
          if digest (algorithm r) c = expected r then (Inr (), st)
          else transfer digest remote r st
      | None \<Rightarrow> transfer digest remote r st)"

section \<open>Example hosts and worlds\<close>

text \<open>Concrete hosts and worlds on which the theorems below are instantiated.\<close>

definition windows_host :: host where
  "windows_host = \<lparr>argv = [''node'', ''build.mjs''], environ = [], platform = ''win32'',
      arch = ''x64'', cwd = [''work''], srcDir = [''repo'']\<rparr>"

definition mac_host :: host where
  "mac_host = \<lparr>argv = [''node'', ''build.mjs''], environ = [], platform = ''darwin'',
      arch = ''arm64'', cwd = [''work''], srcDir = [''repo'']\<rparr>"

text \<open>
  A world in which the bundler succeeds after 10 ticks, a copy takes one tick, and a
  child process exits after 3 ticks and closes one tick later: with code 1 when it was
  given \<open>GOOS=linux\<close>, with code 0 otherwise.
\<close>

definition quiet_world :: "nat world" where
  "quiet_world =
     \<lparr>child_events = (\<lambda>inv t.
         if environment inv = Some [(''GOOS'', ''linux'')]
         then [(t + 3, Exit (Some 1) None), (t + 4, Close)]
         else [(t + 3, Exit (Some 0) None), (t + 4, Close)]),
      webpack_done = (\<lambda>t. Some (t + 10, Stats False ''details'' ''built'')),
      copy_done = (\<lambda>src dst t. Some (t + 1, Fulfilled ())),
      mkdir_done = (\<lambda>p t. Some (t, Fulfilled ())),
      resource_done = (\<lambda>u t. None),
      download_done = (\<lambda>d t. None)\<rparr>"

text \<open>A world in which every child process is terminated by SIGTERM after one tick.\<close>

definition sigterm_world :: "nat world" where
  "sigterm_world =
     \<lparr>child_events = (\<lambda>child t. [(t + 1, Exit None (Some ''SIGTERM'')), (t + 2, Close)]),
      webpack_done = (\<lambda>t. None),
      copy_done = (\<lambda>src dst t. None),
      mkdir_done = (\<lambda>p t. Some (t, Fulfilled ())),
      resource_done = (\<lambda>u t. None),
      download_done = (\<lambda>d t. None)\<rparr>"

text \<open>
  A world without a network: every \<open>getResource\<close> is rejected after one tick with the
  runtime's error 404.
\<close>

definition offline_world :: "nat world" where
  "offline_world =
     \<lparr>child_events = (\<lambda>child t. []),
      webpack_done = (\<lambda>t. None),
      copy_done = (\<lambda>src dst t. None),
      mkdir_done = (\<lambda>p t. None),
      resource_done = (\<lambda>u t. Some (t + 1, Rejected (Foreign 404))),
      download_done = (\<lambda>d t. None)\<rparr>"

text \<open>
  A world in which every checksum manifest arrives after two ticks with the body
  \<open>ab12  f.tgz\<close> and a line feed, and every download is fulfilled three ticks later.
\<close>

definition manifest_world :: "nat world" where
  "manifest_world =
     \<lparr>child_events = (\<lambda>child t. [(t + 1, Exit (Some 0) None), (t + 2, Close)]),
      webpack_done = (\<lambda>t. None),
      copy_done = (\<lambda>src dst t. None),
      mkdir_done = (\<lambda>p t. Some (t, Fulfilled ())),
      resource_done = (\<lambda>u t. Some (t + 2, Fulfilled
         [0x61, 0x62, 0x31, 0x32, 0x20, 0x20, 0x66, 0x2E, 0x74, 0x67, 0x7A, 0x0A])),
      download_done = (\<lambda>d t. Some (t + 3, Fulfilled ()))\<rparr>"

text \<open>
  A network that holds three bytes at one URL, a checksum that is the length of the
  content, a descriptor for that URL, and a fresh disk.
\<close>

definition example_remote :: "string \<Rightarrow> content option" where
  "example_remote u = (if u = ''https://example/test.tar.gz'' then Some [1, 2, 3] else None)"

definition example_digest :: "string \<Rightarrow> content \<Rightarrow> js_string" where
  "example_digest alg c = [of_nat (length c)]"

definition example_request :: request where
  "example_request =
     \<lparr>source = ''https://example/test.tar.gz'', destination = [''dest'', ''test.tar.gz''],
      expected = [3], algorithm = ''sha512'', required_access = Some 2\<rparr>"

definition fresh_storage :: storage where
  "fresh_storage = \<lparr>files = (\<lambda>p. None), folders = {}, permitted = (\<lambda>p. {}), requests = []\<rparr>"

section \<open>Lemmas on promise states\<close>

lemma resolve_Settled [simp]: "resolve v (Settled r) = Settled r"
  by (simp add: resolve_def)

lemma reject_Settled [simp]: "reject e (Settled r) = Settled r"
  by (simp add: reject_def)

lemma resolve_Pending [simp]: "resolve v Pending = Settled (Fulfilled v)"
  by (simp add: resolve_def)

lemma reject_Pending [simp]: "reject e Pending = Settled (Rejected e)"
  by (simp add: reject_def)

lemma spawn_on_exit_Settled [simp]: "spawn_on_exit code signal (Settled r) = Settled r"
  by (simp add: spawn_on_exit_def)

lemma spawn_listeners_Settled [simp]: "spawn_listeners ev (Settled r) = Settled r"
  by (cases ev) (simp_all add: spawn_listeners_def)

lemma foldl_spawn_Settled [simp]:
  "foldl (\<lambda>st ev. spawn_listeners ev st) (Settled r) evs = Settled r"
  by (induction evs) simp_all

lemma spawn_state_Cons:
  "spawn_state (ev # evs) =
     (case spawn_listeners ev Pending of
        Pending \<Rightarrow> foldl (\<lambda>st ev. spawn_listeners ev st) Pending evs
      | Settled r \<Rightarrow> Settled r)"
  by (cases "spawn_listeners ev Pending") (simp_all add: spawn_state_def deliver_def)

lemma spawn_listeners_exit_code:
  "spawn_listeners (Exit (Some c) None) Pending =
     (if c = 0 then Pending
      else Settled (Rejected (Error (''Process exited with code '' @ number_string c))))"
  by (simp add: spawn_listeners_def spawn_on_exit_def truthy_def)

lemma spawn_listeners_exit_signal:
  "s \<noteq> [] \<Longrightarrow> spawn_listeners (Exit None (Some s)) Pending =
     (if s = ''SIGTERM'' then Pending
      else Settled (Rejected (Error (''Process exited with signal '' @ s))))"
  by (simp add: spawn_listeners_def spawn_on_exit_def truthy_def)

lemma spawn_listeners_close: "spawn_listeners Close Pending = Settled (Fulfilled ())"
  by (simp add: spawn_listeners_def)

lemma spawn_listeners_error:
  "spawn_listeners (ChildError err) Pending = Settled (Rejected (Foreign err))"
  by (simp add: spawn_listeners_def)

lemma spawn_state_error_first:
  "spawn_state (ChildError err # rest) = Settled (Rejected (Foreign err))"
  by (simp add: spawn_state_Cons spawn_listeners_error)

lemma spawn_state_exit_code:
  "spawn_state (Exit (Some c) None # Close # rest) =
     (if c = 0 then Settled (Fulfilled ())
      else Settled (Rejected (Error (''Process exited with code '' @ number_string c))))"
  by (simp add: spawn_state_def deliver_def spawn_listeners_exit_code spawn_listeners_close)

lemma spawn_state_exit_signal:
  "s \<noteq> [] \<Longrightarrow> spawn_state (Exit None (Some s) # Close # rest) =
     (if s = ''SIGTERM'' then Settled (Fulfilled ())
      else Settled (Rejected (Error (''Process exited with signal '' @ s))))"
  by (simp add: spawn_state_def deliver_def spawn_listeners_exit_signal spawn_listeners_close)

lemma settle_by_state:
  assumes "\<And>ev r. f ev (Settled r) = Settled r"
  shows "deliver f (map snd tevs) =
     (case settle_by f tevs of None \<Rightarrow> Pending | Some (t, r) \<Rightarrow> Settled r)"
proof -
  have settled: "foldl (\<lambda>st ev. f ev st) (Settled r) evs = Settled r" for r evs
    by (induction evs) (simp_all add: assms)
  show ?thesis
  proof (induction tevs)
    case Nil
    then show ?case by (simp add: deliver_def)
  next
    case (Cons tev tevs)
    obtain t ev where tev: "tev = (t, ev)" by (cases tev)
    show ?case
    proof (cases "f ev Pending")
      case Pending
      with Cons tev show ?thesis by (simp add: deliver_def)
    next
      case (Settled r)
      with tev show ?thesis by (simp add: deliver_def settled)
    qed
  qed
qed

lemma spawn_promise_state:
  "spawn_state (map snd tevs) =
     (case settle_by spawn_listeners tevs of None \<Rightarrow> Pending | Some (t, r) \<Rightarrow> Settled r)"
  unfolding spawn_state_def by (rule settle_by_state) simp

section \<open>Lemmas on the serial coordinator\<close>

lemma await_Some_iff:
  "await now p = Some (t, r) \<longleftrightarrow> (\<exists>s. p = Some (s, r) \<and> t = max now s)"
  by (auto simp: await_def split: option.splits)

lemma await_None_iff: "await now p = None \<longleftrightarrow> p = None"
  by (auto simp: await_def split: option.splits)

lemma promise_cases:
  fixes p :: "('v, 'e) promise"
  obtains (never) "p = None"
    | (fulfilled) s v where "p = Some (s, Fulfilled v)"
    | (rejected) s e where "p = Some (s, Rejected e)"
proof (cases p)
  case None
  then show ?thesis by (rule never)
next
  case (Some tr)
  obtain s r where "tr = (s, r)" by (cases tr)
  with Some show ?thesis by (cases r) (auto intro: fulfilled rejected)
qed

lemma wait_serial_step_never:
  "result (task now) = None \<Longrightarrow>
   wait_serial now (task # tasks) = \<lparr>calls = [(now, task now)], completion = None\<rparr>"
  by (simp add: Let_def await_def)

lemma wait_serial_step_rejected:
  "result (task now) = Some (s, Rejected e) \<Longrightarrow>
   wait_serial now (task # tasks) =
     \<lparr>calls = [(now, task now)], completion = Some (max now s, Rejected e)\<rparr>"
  by (simp add: Let_def await_def)

lemma wait_serial_step_fulfilled:
  "result (task now) = Some (s, Fulfilled v) \<Longrightarrow>
   wait_serial now (task # tasks) =
     \<lparr>calls = (now, task now) # calls (wait_serial (max now s) tasks),
      completion = completion (wait_serial (max now s) tasks)\<rparr>"
  by (simp add: Let_def await_def)

lemmas wait_serial_steps = wait_serial_step_never wait_serial_step_rejected wait_serial_step_fulfilled

declare wait_serial.simps(2) [simp del]

lemma wait_serial_length: "length (calls (wait_serial now tasks)) \<le> length tasks"
proof (induction tasks arbitrary: now)
  case Nil
  then show ?case by simp
next
  case (Cons task tasks)
  show ?case
    using Cons.IH by (cases "result (task now)" rule: promise_cases) (simp_all add: wait_serial_steps)
qed

lemma wait_serial_head:
  "calls (wait_serial now (task # tasks)) ! 0 = (now, task now)"
  by (cases "result (task now)" rule: promise_cases) (simp_all add: wait_serial_steps)

lemma wait_serial_nonempty:
  "0 < length (calls (wait_serial now (task # tasks)))"
  by (cases "result (task now)" rule: promise_cases) (simp_all add: wait_serial_steps)

lemma wait_serial_time:
  "completion (wait_serial now tasks) = Some (t, r) \<Longrightarrow> now \<le> t"
proof (induction tasks arbitrary: now)
  case Nil
  then show ?case by simp
next
  case (Cons task tasks)
  show ?case
  proof (cases "result (task now)" rule: promise_cases)
    case never
    with Cons.prems show ?thesis by (simp add: wait_serial_steps)
  next
    case (rejected s e)
    with Cons.prems show ?thesis by (auto simp: wait_serial_steps)
  next
    case (fulfilled s v)
    with Cons.prems have "completion (wait_serial (max now s) tasks) = Some (t, r)"
      by (simp add: wait_serial_steps)
    from Cons.IH [OF this] show ?thesis by simp
  qed
qed

lemma wait_serial_nth:
  "k < length (calls (wait_serial now tasks)) \<Longrightarrow>
   snd (calls (wait_serial now tasks) ! k) = (tasks ! k) (fst (calls (wait_serial now tasks) ! k))"
proof (induction tasks arbitrary: now k)
  case Nil
  then show ?case by simp
next
  case (Cons task tasks)
  show ?case
  proof (cases k)
    case 0
    then show ?thesis by (simp add: wait_serial_head)
  next
    case (Suc j)
    show ?thesis
    proof (cases "result (task now)" rule: promise_cases)
      case never
      with Cons.prems Suc show ?thesis by (simp add: wait_serial_steps)
    next
      case (rejected s e)
      with Cons.prems Suc show ?thesis by (simp add: wait_serial_steps)
    next
      case (fulfilled s v)
      with Cons.prems Suc Cons.IH [of j "max now s"] show ?thesis
        by (simp add: wait_serial_steps)
    qed
  qed
qed

lemma wait_serial_next:
  "Suc k < length (calls (wait_serial now tasks)) \<Longrightarrow>
   \<exists>s. result (snd (calls (wait_serial now tasks) ! k)) = Some (s, Fulfilled ())
      \<and> fst (calls (wait_serial now tasks) ! Suc k) = max (fst (calls (wait_serial now tasks) ! k)) s"
proof (induction tasks arbitrary: now k)
  case Nil
  then show ?case by simp
next
  case (Cons task tasks)
  show ?case
  proof (cases "result (task now)" rule: promise_cases)
    case never
    with Cons.prems show ?thesis by (simp add: wait_serial_steps)
  next
    case (rejected s e)
    with Cons.prems show ?thesis by (simp add: wait_serial_steps)
  next
    case (fulfilled s v)
    note eq = wait_serial_step_fulfilled [where task = task and now = now and tasks = tasks, OF fulfilled]
    show ?thesis
    proof (cases k)
      case 0
      with Cons.prems eq have "0 < length (calls (wait_serial (max now s) tasks))" by simp
      then obtain task' tasks' where "tasks = task' # tasks'" by (cases tasks) auto
      with 0 eq fulfilled show ?thesis
        by (simp add: wait_serial_head)
    next
      case (Suc j)
      with Cons.prems eq have "Suc j < length (calls (wait_serial (max now s) tasks))" by simp
      from Cons.IH [OF this] show ?thesis using Suc eq by simp
    qed
  qed
qed

lemma wait_serial_reject:
  "k < length (calls (wait_serial now tasks)) \<Longrightarrow>
   result (snd (calls (wait_serial now tasks) ! k)) = Some (s, Rejected e) \<Longrightarrow>
   length (calls (wait_serial now tasks)) = Suc k
   \<and> completion (wait_serial now tasks) = Some (max (fst (calls (wait_serial now tasks) ! k)) s, Rejected e)"
proof (induction tasks arbitrary: now k)
  case Nil
  then show ?case by simp
next
  case (Cons task tasks)
  show ?case
  proof (cases "result (task now)" rule: promise_cases)
    case never
    with Cons.prems show ?thesis by (simp add: wait_serial_steps)
  next
    case (rejected s' e')
    with Cons.prems show ?thesis by (simp add: wait_serial_steps)
  next
    case (fulfilled s' v)
    note eq = wait_serial_step_fulfilled [where task = task and now = now and tasks = tasks, OF fulfilled]
    show ?thesis
    proof (cases k)
      case 0
      with Cons.prems eq fulfilled show ?thesis by simp
    next
      case (Suc j)
      with Cons.prems eq have "j < length (calls (wait_serial (max now s') tasks))"
        "result (snd (calls (wait_serial (max now s') tasks) ! j)) = Some (s, Rejected e)" by simp_all
      from Cons.IH [OF this] show ?thesis using Suc eq by simp
    qed
  qed
qed

lemma wait_serial_never:
  "k < length (calls (wait_serial now tasks)) \<Longrightarrow>
   result (snd (calls (wait_serial now tasks) ! k)) = None \<Longrightarrow>
   length (calls (wait_serial now tasks)) = Suc k \<and> completion (wait_serial now tasks) = None"
proof (induction tasks arbitrary: now k)
  case Nil
  then show ?case by simp
next
  case (Cons task tasks)
  show ?case
  proof (cases "result (task now)" rule: promise_cases)
    case never
    with Cons.prems show ?thesis by (simp add: wait_serial_steps)
  next
    case (rejected s' e')
    with Cons.prems show ?thesis by (simp add: wait_serial_steps)
  next
    case (fulfilled s' v)
    note eq = wait_serial_step_fulfilled [where task = task and now = now and tasks = tasks, OF fulfilled]
    show ?thesis
    proof (cases k)
      case 0
      with Cons.prems eq fulfilled show ?thesis by simp
    next
      case (Suc j)
      with Cons.prems eq have "j < length (calls (wait_serial (max now s') tasks))"
        "result (snd (calls (wait_serial (max now s') tasks) ! j)) = None" by simp_all
      from Cons.IH [OF this] show ?thesis using Suc eq by simp
    qed
  qed
qed

lemma wait_serial_all_fulfilled:
  "\<forall>k<length (calls (wait_serial now tasks)). \<exists>s. result (snd (calls (wait_serial now tasks) ! k)) = Some (s, Fulfilled ()) \<Longrightarrow>
   length (calls (wait_serial now tasks)) = length tasks
   \<and> (\<exists>t. completion (wait_serial now tasks) = Some (t, Fulfilled ()))"
proof (induction tasks arbitrary: now)
  case Nil
  then show ?case by simp
next
  case (Cons task tasks)
  from Cons.prems wait_serial_nonempty [of now task tasks] wait_serial_head [of now task tasks]
  obtain s where s: "result (task now) = Some (s, Fulfilled ())"
    by (metis snd_conv)
  note eq = wait_serial_step_fulfilled [where task = task and now = now and tasks = tasks, OF s]
  have "\<forall>k<length (calls (wait_serial (max now s) tasks)).
      \<exists>s'. result (snd (calls (wait_serial (max now s) tasks) ! k)) = Some (s', Fulfilled ())"
  proof (intro allI impI)
    fix k assume "k < length (calls (wait_serial (max now s) tasks))"
    then have "Suc k < length (calls (wait_serial now (task # tasks)))" using eq by simp
    with Cons.prems have "\<exists>s'. result (snd (calls (wait_serial now (task # tasks)) ! Suc k)) = Some (s', Fulfilled ())"
      by blast
    then show "\<exists>s'. result (snd (calls (wait_serial (max now s) tasks) ! k)) = Some (s', Fulfilled ())"
      using eq by simp
  qed
  from Cons.IH [OF this] show ?case using eq by simp
qed

lemma wait_serial_fulfilled_only_if:
  "completion (wait_serial now tasks) = Some (t, Fulfilled ()) \<Longrightarrow>
   length (calls (wait_serial now tasks)) = length tasks
   \<and> (\<forall>k<length tasks. \<exists>s. result (snd (calls (wait_serial now tasks) ! k)) = Some (s, Fulfilled ()) \<and> s \<le> t)"
proof (induction tasks arbitrary: now)
  case Nil
  then show ?case by simp
next
  case (Cons task tasks)
  show ?case
  proof (cases "result (task now)" rule: promise_cases)
    case never
    with Cons.prems show ?thesis by (simp add: wait_serial_steps)
  next
    case (rejected s' e')
    with Cons.prems show ?thesis by (simp add: wait_serial_steps)
  next
    case (fulfilled s v)
    note eq = wait_serial_step_fulfilled [where task = task and now = now and tasks = tasks, OF fulfilled]
    with Cons.prems have c: "completion (wait_serial (max now s) tasks) = Some (t, Fulfilled ())" by simp
    note ih = Cons.IH [OF c]
    from wait_serial_time [OF c] have le: "s \<le> t" by simp
    show ?thesis
    proof (intro conjI allI impI)
      show "length (calls (wait_serial now (task # tasks))) = length (task # tasks)"
        using ih eq by simp
    next
      fix k assume k: "k < length (task # tasks)"
      show "\<exists>s. result (snd (calls (wait_serial now (task # tasks)) ! k)) = Some (s, Fulfilled ()) \<and> s \<le> t"
      proof (cases k)
        case 0
        then show ?thesis using eq fulfilled le by simp
      next
        case (Suc j)
        with k ih show ?thesis using eq by simp
      qed
    qed
  qed
qed

section \<open>Lemmas on \<open>Promise.all\<close> and the parallel coordinator\<close>

lemma first_rejection_None:
  "first_rejection ps = None \<longleftrightarrow> (\<forall>t e. Some (t, Rejected e) \<notin> set ps)"
proof (induction ps)
  case Nil
  then show ?case by simp
next
  case (Cons p ps)
  show ?case
    by (cases p rule: promise_cases) (auto simp: Cons.IH split: option.splits)
qed

lemma first_rejection_Some:
  "first_rejection ps = Some (t, e) \<Longrightarrow>
   Some (t, Rejected e) \<in> set ps \<and> (\<forall>t' e'. Some (t', Rejected e') \<in> set ps \<longrightarrow> t \<le> t')"
proof (induction ps arbitrary: t e)
  case Nil
  then show ?case by simp
next
  case (Cons p ps)
  show ?case
  proof (cases p rule: promise_cases)
    case never
    with Cons show ?thesis by auto
  next
    case (fulfilled s v)
    with Cons show ?thesis by auto
  next
    case (rejected s x)
    show ?thesis
    proof (cases "first_rejection ps")
      case None
      with Cons.prems rejected first_rejection_None [of ps] show ?thesis by auto
    next
      case (Some te)
      obtain t' e' where te: "te = (t', e')" by (cases te)
      from Cons.IH [of t' e'] Some te
      have ih: "Some (t', Rejected e') \<in> set ps" "\<forall>u x. Some (u, Rejected x) \<in> set ps \<longrightarrow> t' \<le> u"
        by auto
      show ?thesis
      proof (cases "s \<le> t'")
        case True
        with Cons.prems rejected Some te have "t = s" "e = x" by auto
        with True ih rejected show ?thesis by (auto intro: order_trans)
      next
        case False
        with Cons.prems rejected Some te have "t = t'" "e = e'" by auto
        with False ih rejected show ?thesis by auto
      qed
    qed
  qed
qed

lemma all_fulfilled_Some:
  "all_fulfilled now ps = Some (t, vs) \<Longrightarrow>
   now \<le> t \<and> length vs = length ps \<and> (\<forall>p\<in>set ps. \<exists>s v. p = Some (s, Fulfilled v) \<and> s \<le> t)"
proof (induction ps arbitrary: t vs)
  case Nil
  then show ?case by simp
next
  case (Cons p ps)
  show ?case
  proof (cases p rule: promise_cases)
    case never
    with Cons.prems show ?thesis by simp
  next
    case (rejected s x)
    with Cons.prems show ?thesis by simp
  next
    case (fulfilled s v)
    with Cons.prems obtain t' vs' where a: "all_fulfilled now ps = Some (t', vs')"
      and t: "t = max s t'" and vs: "vs = v # vs'"
      by (auto split: option.splits)
    from Cons.IH [OF a] t vs fulfilled show ?thesis
      by (auto simp: max_def)
  qed
qed

lemma all_fulfilled_iff:
  "(\<exists>t vs. all_fulfilled now ps = Some (t, vs)) \<longleftrightarrow> (\<forall>p\<in>set ps. \<exists>s v. p = Some (s, Fulfilled v))"
proof (induction ps)
  case Nil
  then show ?case by simp
next
  case (Cons p ps)
  show ?case
    using Cons.IH by (cases p rule: promise_cases) (auto split: option.splits)
qed

lemma promise_all_rejected:
  "promise_all now xs = Some (t, Rejected e) \<longleftrightarrow>
   first_rejection (map (promise_resolve now) xs) = Some (t, e)"
  by (auto simp: promise_all_def Let_def split: option.splits)

lemma promise_all_fulfilled:
  "promise_all now xs = Some (t, Fulfilled vs) \<longleftrightarrow>
   first_rejection (map (promise_resolve now) xs) = None
   \<and> all_fulfilled now (map (promise_resolve now) xs) = Some (t, vs)"
  by (auto simp: promise_all_def Let_def split: option.splits)

lemma all_fulfilled_no_rejection:
  "all_fulfilled now ps = Some (t, vs) \<Longrightarrow> first_rejection ps = None"
  using all_fulfilled_Some [of now ps t vs] by (fastforce simp: first_rejection_None)

lemma wait_parallel_calls:
  "calls (wait_parallel now tasks) = map (\<lambda>task. (now, task now)) tasks"
  by (simp add: wait_parallel_def Let_def comp_def)

lemma wait_parallel_promises:
  "map (promise_resolve now) (map (\<lambda>r. Thenable (result r)) (map (\<lambda>t. t now) tasks)) =
   map (\<lambda>task. await now (result (task now))) tasks"
  by (simp add: promise_resolve_def comp_def)

lemma wait_parallel_rejected:
  "completion (wait_parallel now tasks) = Some (t, Rejected e) \<longleftrightarrow>
   first_rejection (map (\<lambda>task. await now (result (task now))) tasks) = Some (t, e)"
proof -
  have "completion (wait_parallel now tasks) = Some (t, Rejected e) \<longleftrightarrow>
      promise_all now (map (\<lambda>r. Thenable (result r)) (map (\<lambda>t. t now) tasks)) = Some (t, Rejected e)"
    by (auto simp: wait_parallel_def Let_def split: option.splits outcome.splits)
  then show ?thesis by (simp only: promise_all_rejected wait_parallel_promises)
qed

lemma wait_parallel_fulfilled:
  "completion (wait_parallel now tasks) = Some (t, Fulfilled ()) \<longleftrightarrow>
   (\<exists>vs. all_fulfilled now (map (\<lambda>task. await now (result (task now))) tasks) = Some (t, vs))"
proof -
  have "completion (wait_parallel now tasks) = Some (t, Fulfilled ()) \<longleftrightarrow>
      (\<exists>vs. promise_all now (map (\<lambda>r. Thenable (result r)) (map (\<lambda>t. t now) tasks)) = Some (t, Fulfilled vs))"
    by (auto simp: wait_parallel_def Let_def split: option.splits outcome.splits)
  then show ?thesis
    using all_fulfilled_no_rejection [of now "map (\<lambda>task. await now (result (task now))) tasks" t]
    by (auto simp only: promise_all_fulfilled wait_parallel_promises)
qed

lemma await_in_set:
  "Some (t, r) \<in> set (map (\<lambda>task. await now (result (task now))) tasks) \<longleftrightarrow>
   (\<exists>task\<in>set tasks. \<exists>s. result (task now) = Some (s, r) \<and> t = max now s)"
  by (auto simp: await_Some_iff image_iff) (metis await_Some_iff)+


lemma wait_parallel_fulfilled_iff:
  "(\<exists>t. completion (wait_parallel now tasks) = Some (t, Fulfilled ())) \<longleftrightarrow>
   (\<forall>task\<in>set tasks. \<exists>s. result (task now) = Some (s, Fulfilled ()))"
proof -
  have "(\<exists>t. completion (wait_parallel now tasks) = Some (t, Fulfilled ())) \<longleftrightarrow>
      (\<forall>p\<in>set (map (\<lambda>task. await now (result (task now))) tasks). \<exists>s v. p = Some (s, Fulfilled v))"
    using all_fulfilled_iff [of now "map (\<lambda>task. await now (result (task now))) tasks"]
    by (auto simp only: wait_parallel_fulfilled)
  also have "\<dots> \<longleftrightarrow> (\<forall>task\<in>set tasks. \<exists>s. result (task now) = Some (s, Fulfilled ()))"
    by (auto simp: await_Some_iff)
  finally show ?thesis .
qed

lemma wait_parallel_fulfilled_time:
  assumes "completion (wait_parallel now tasks) = Some (t, Fulfilled ())"
    and "task \<in> set tasks"
  shows "\<exists>s. result (task now) = Some (s, Fulfilled ()) \<and> s \<le> t"
proof -
  from assms(1) obtain vs
    where "all_fulfilled now (map (\<lambda>task. await now (result (task now))) tasks) = Some (t, vs)"
    by (auto simp only: wait_parallel_fulfilled)
  from all_fulfilled_Some [OF this] assms(2)
  obtain s v where "await now (result (task now)) = Some (s, Fulfilled v)" "s \<le> t"
    by fastforce
  then show ?thesis by (auto simp: await_Some_iff)
qed

lemma wait_parallel_rejected_first:
  assumes "completion (wait_parallel now tasks) = Some (t, Rejected e)"
  shows "(\<exists>task\<in>set tasks. \<exists>s. result (task now) = Some (s, Rejected e) \<and> t = max now s)
     \<and> (\<forall>task\<in>set tasks. \<forall>s' e'. result (task now) = Some (s', Rejected e') \<longrightarrow> t \<le> max now s')"
proof -
  let ?ps = "map (\<lambda>task. await now (result (task now))) tasks"
  from assms have "first_rejection ?ps = Some (t, e)" by (simp only: wait_parallel_rejected)
  from first_rejection_Some [OF this]
  have a: "Some (t, Rejected e) \<in> set ?ps"
    and b: "\<forall>t' e'. Some (t', Rejected e') \<in> set ?ps \<longrightarrow> t \<le> t'" by blast+
  from a have 1: "\<exists>task\<in>set tasks. \<exists>s. result (task now) = Some (s, Rejected e) \<and> t = max now s"
    by (simp only: await_in_set)
  have 2: "\<forall>task\<in>set tasks. \<forall>s' e'. result (task now) = Some (s', Rejected e') \<longrightarrow> t \<le> max now s'"
  proof (intro ballI allI impI)
    fix task s' e' assume "task \<in> set tasks" "result (task now) = Some (s', Rejected e')"
    then have "Some (max now s', Rejected e') \<in> set ?ps"
      unfolding await_in_set by blast
    with b show "t \<le> max now s'" by blast
  qed
  from 1 2 show ?thesis by blast
qed

lemma wait_parallel_some_rejection:
  assumes "task \<in> set tasks" and "result (task now) = Some (s, Rejected e)"
  shows "\<exists>t e'. completion (wait_parallel now tasks) = Some (t, Rejected e')"
proof -
  let ?ps = "map (\<lambda>task. await now (result (task now))) tasks"
  from assms have "Some (max now s, Rejected e) \<in> set ?ps"
    unfolding await_in_set by blast
  then have "first_rejection ?ps \<noteq> None"
    by (simp only: first_rejection_None) blast
  then obtain t e' where "first_rejection ?ps = Some (t, e')" by (cases "first_rejection ?ps") auto
  then show ?thesis by (simp only: wait_parallel_rejected [symmetric]) blast
qed

section \<open>The Process Supervisor's completion contract\<close>

text \<open>
  Claim C1. A child that was started emits \<open>exit\<close> and then \<open>close\<close>; \<open>exit\<close> carries a
  code and no signal when the process exited by itself, and a (non-empty) signal name
  and no code when a signal terminated it. The promise returned by \<open>spawn\<close> is then
  fulfilled when the exit code is 0 and when the signal is SIGTERM; it is rejected with
  an \<open>Error\<close> whose message names the code when the code is not 0, and with one whose
  message names the signal when the signal is not SIGTERM. When the process could not
  be started the child emits \<open>error\<close> first, and the promise is rejected with that very
  error object, whatever is emitted afterwards. The promise that \<open>spawn\<close> returns for a
  command is settled as the listeners leave it after the events of the child it started.
\<close>

theorem spawn_completion_contract:
  "spawn_state (Exit (Some 0) None # Close # rest) = Settled (Fulfilled ())
   \<and> spawn_state (Exit None (Some ''SIGTERM'') # Close # rest) = Settled (Fulfilled ())
   \<and> (c \<noteq> 0 \<longrightarrow> spawn_state (Exit (Some c) None # Close # rest) =
          Settled (Rejected (Error (''Process exited with code '' @ number_string c))))
   \<and> (s \<noteq> [] \<and> s \<noteq> ''SIGTERM'' \<longrightarrow> spawn_state (Exit None (Some s) # Close # rest) =
          Settled (Rejected (Error (''Process exited with signal '' @ s))))
   \<and> spawn_state (ChildError err # rest) = Settled (Rejected (Foreign err))
   \<and> spawn_state (map snd (child_events w (spawn_invocation h cmd as opts) now)) =
       (case result (spawn h w cmd as opts now) of
          None \<Rightarrow> Pending
        | Some (t, r) \<Rightarrow> Settled r)"
  by (simp add: spawn_state_exit_code spawn_state_exit_signal spawn_state_error_first
      spawn_promise_state spawn_def Let_def)

theorem spawn_completion_contract_witness:
  "spawn_state (Exit (Some 2) None # Close # ([] :: nat child_event list)) =
     Settled (Rejected (Error ''Process exited with code 2''))
   \<and> spawn_state (Exit None (Some ''SIGKILL'') # Close # ([] :: nat child_event list)) =
     Settled (Rejected (Error ''Process exited with signal SIGKILL''))
   \<and> spawn_state (Exit None (Some ''SIGTERM'') # Close # ([] :: nat child_event list)) =
     Settled (Fulfilled ())
   \<and> spawn_state [ChildError (7::nat), Close] = Settled (Rejected (Foreign 7))"
proof -
  have code: "number_string 2 = ''2''"
    by (simp add: number_string_def decimal_digits.simps digit_char_def)
  show ?thesis
    using spawn_completion_contract [where c = 2 and s = "''SIGKILL''"
        and rest = "[] :: nat child_event list" and err = 7
        and w = quiet_world and h = windows_host and cmd = "''go''" and as = "[]"
        and opts = None and now = 0]
      spawn_completion_contract [where c = 2 and s = "''SIGKILL''"
        and rest = "[Close] :: nat child_event list" and err = 7
        and w = quiet_world and h = windows_host and cmd = "''go''" and as = "[]"
        and opts = None and now = 0]
    by (simp add: code)
qed

section \<open>Serial coordination\<close>

text \<open>
  Claim C2. With \<open>--serial\<close> among the arguments, \<open>wait\<close> calls the tasks one at a time
  in list order: the k-th call it makes is the k-th task of the list, the first one at
  the time of the coordination call; a further call is made only once the promise of
  the call before it is fulfilled, and at the time that promise settled or later. When
  a called task's promise is rejected, that call is the last one \<open>wait\<close> makes and its own
  promise is rejected with the same error; when it never settles, that call is the last
  one as well and \<open>wait\<close> never settles. When every called task is fulfilled, every task
  of the list has been called and \<open>wait\<close> is fulfilled.
\<close>

theorem serial_coordination:
  "serial h \<Longrightarrow> w = wait h now tasks \<Longrightarrow>
     length (calls w) \<le> length tasks
   \<and> (\<forall>k<length (calls w). snd (calls w ! k) = (tasks ! k) (fst (calls w ! k)))
   \<and> (tasks \<noteq> [] \<longrightarrow> calls w \<noteq> [] \<and> fst (calls w ! 0) = now)
   \<and> (\<forall>k. Suc k < length (calls w) \<longrightarrow>
         (\<exists>s. result (snd (calls w ! k)) = Some (s, Fulfilled ())
            \<and> fst (calls w ! Suc k) = max (fst (calls w ! k)) s))
   \<and> (\<forall>k s e. k < length (calls w) \<and> result (snd (calls w ! k)) = Some (s, Rejected e) \<longrightarrow>
         length (calls w) = Suc k
         \<and> completion w = Some (max (fst (calls w ! k)) s, Rejected e))
   \<and> (\<forall>k. k < length (calls w) \<and> result (snd (calls w ! k)) = None \<longrightarrow>
         length (calls w) = Suc k \<and> completion w = None)
   \<and> ((\<forall>k<length (calls w). \<exists>s. result (snd (calls w ! k)) = Some (s, Fulfilled ())) \<longrightarrow>
         length (calls w) = length tasks \<and> (\<exists>t. completion w = Some (t, Fulfilled ())))"
proof -
  assume h: "serial h" and w: "w = wait h now tasks"
  then have ws: "w = wait_serial now tasks" by (simp add: wait_def)
  have first: "tasks \<noteq> [] \<longrightarrow> calls w \<noteq> [] \<and> fst (calls w ! 0) = now"
  proof
    assume "tasks \<noteq> []"
    then obtain task tasks' where "tasks = task # tasks'" by (cases tasks) auto
    with wait_serial_nonempty [of now task tasks'] wait_serial_head [of now task tasks']
    show "calls w \<noteq> [] \<and> fst (calls w ! 0) = now" by (simp add: ws)
  qed
  have nth: "\<forall>k<length (calls w). snd (calls w ! k) = (tasks ! k) (fst (calls w ! k))"
    using wait_serial_nth [of _ now tasks] by (simp add: ws)
  have nxt: "\<forall>k. Suc k < length (calls w) \<longrightarrow>
         (\<exists>s. result (snd (calls w ! k)) = Some (s, Fulfilled ())
            \<and> fst (calls w ! Suc k) = max (fst (calls w ! k)) s)"
    using wait_serial_next [of _ now tasks] by (simp add: ws)
  have rej: "\<forall>k s e. k < length (calls w) \<and> result (snd (calls w ! k)) = Some (s, Rejected e) \<longrightarrow>
         length (calls w) = Suc k
         \<and> completion w = Some (max (fst (calls w ! k)) s, Rejected e)"
    using wait_serial_reject [of _ now tasks] unfolding ws by blast
  have nev: "\<forall>k. k < length (calls w) \<and> result (snd (calls w ! k)) = None \<longrightarrow>
         length (calls w) = Suc k \<and> completion w = None"
    using wait_serial_never [of _ now tasks] unfolding ws by blast
  have ful: "(\<forall>k<length (calls w). \<exists>s. result (snd (calls w ! k)) = Some (s, Fulfilled ())) \<longrightarrow>
         length (calls w) = length tasks \<and> (\<exists>t. completion w = Some (t, Fulfilled ()))"
    using wait_serial_all_fulfilled [of now tasks] unfolding ws by blast
  have len: "length (calls w) \<le> length tasks"
    using wait_serial_length [of now tasks] by (simp add: ws)
  from len nth first nxt rej nev ful show ?thesis by (intro conjI)
qed

theorem serial_coordination_witness:
  "serial \<lparr>argv = [''node'', ''build.mjs'', ''--serial''], environ = [], platform = ''linux'',
           arch = ''x64'', cwd = [''work''], srcDir = [''repo'']\<rparr>
   \<and> calls (wait \<lparr>argv = [''node'', ''build.mjs'', ''--serial''], environ = [], platform = ''linux'',
           arch = ''x64'', cwd = [''work''], srcDir = [''repo'']\<rparr> 0
        [\<lambda>t. \<lparr>effects = [(t, ''A'')], result = Some (t + 5, Fulfilled ())\<rparr>,
         \<lambda>t. \<lparr>effects = [(t, ''B'')], result = Some (t + 2, Rejected (Error ''B failed'' :: nat error))\<rparr>,
         \<lambda>t. \<lparr>effects = [(t, ''C'')], result = Some (t + 1, Fulfilled ())\<rparr>])
      = [(0, \<lparr>effects = [(0, ''A'')], result = Some (5, Fulfilled ())\<rparr>),
         (5, \<lparr>effects = [(5, ''B'')], result = Some (7, Rejected (Error ''B failed''))\<rparr>)]
   \<and> completion (wait \<lparr>argv = [''node'', ''build.mjs'', ''--serial''], environ = [], platform = ''linux'',
           arch = ''x64'', cwd = [''work''], srcDir = [''repo'']\<rparr> 0
        [\<lambda>t. \<lparr>effects = [(t, ''A'')], result = Some (t + 5, Fulfilled ())\<rparr>,
         \<lambda>t. \<lparr>effects = [(t, ''B'')], result = Some (t + 2, Rejected (Error ''B failed'' :: nat error))\<rparr>,
         \<lambda>t. \<lparr>effects = [(t, ''C'')], result = Some (t + 1, Fulfilled ())\<rparr>])
      = Some (7, Rejected (Error ''B failed''))"
proof -
  let ?h = "\<lparr>argv = [''node'', ''build.mjs'', ''--serial''], environ = [], platform = ''linux'',
           arch = ''x64'', cwd = [''work''], srcDir = [''repo'']\<rparr>"
  let ?tasks = "[\<lambda>t. \<lparr>effects = [(t, ''A'')], result = Some (t + 5, Fulfilled ())\<rparr>,
         \<lambda>t. \<lparr>effects = [(t, ''B'')], result = Some (t + 2, Rejected (Error ''B failed'' :: nat error))\<rparr>,
         \<lambda>t::nat. \<lparr>effects = [(t, ''C'')], result = Some (t + 1, Fulfilled ())\<rparr>]"
  have s: "serial ?h" by (simp add: serial_def)
  have c: "calls (wait ?h 0 ?tasks) = [(0, \<lparr>effects = [(0, ''A'')], result = Some (5, Fulfilled ())\<rparr>),
         (5, \<lparr>effects = [(5, ''B'')], result = Some (7, Rejected (Error ''B failed''))\<rparr>)]"
    by (simp add: wait_def serial_def wait_serial.simps await_def)
  from serial_coordination [OF s refl, of 0 ?tasks]
  have "\<forall>k s e. k < length (calls (wait ?h 0 ?tasks)) \<and> result (snd (calls (wait ?h 0 ?tasks) ! k)) = Some (s, Rejected e) \<longrightarrow>
         length (calls (wait ?h 0 ?tasks)) = Suc k
         \<and> completion (wait ?h 0 ?tasks) = Some (max (fst (calls (wait ?h 0 ?tasks) ! k)) s, Rejected e)"
    by blast
  from this [rule_format, of 1 7 "Error ''B failed''"] c
  have "completion (wait ?h 0 ?tasks) = Some (7, Rejected (Error ''B failed''))"
    by simp
  with s c show ?thesis by simp
qed

section \<open>Parallel coordination\<close>

text \<open>
  Claim C3. Without \<open>--serial\<close>, \<open>wait\<close> calls every task of the list at the time of the
  coordination call, whatever any of them does afterwards. Its promise is fulfilled
  exactly when every task's promise is fulfilled, and then not before the last of them.
  When some task's promise is rejected, its promise is rejected; the error it carries is
  the one of a task of the list whose rejection is the earliest of all the rejections,
  and it carries that single error only.
\<close>

theorem parallel_coordination:
  "\<not> serial h \<Longrightarrow> w = wait h now tasks \<Longrightarrow>
     calls w = map (\<lambda>task. (now, task now)) tasks
   \<and> ((\<exists>t. completion w = Some (t, Fulfilled ())) \<longleftrightarrow>
        (\<forall>task\<in>set tasks. \<exists>s. result (task now) = Some (s, Fulfilled ())))
   \<and> (\<forall>t. completion w = Some (t, Fulfilled ()) \<longrightarrow>
        (\<forall>task\<in>set tasks. \<exists>s. result (task now) = Some (s, Fulfilled ()) \<and> s \<le> t))
   \<and> ((\<exists>task\<in>set tasks. \<exists>s e. result (task now) = Some (s, Rejected e)) \<longrightarrow>
        (\<exists>t e. completion w = Some (t, Rejected e)))
   \<and> (\<forall>t e. completion w = Some (t, Rejected e) \<longrightarrow>
        (\<exists>task\<in>set tasks. \<exists>s. result (task now) = Some (s, Rejected e) \<and> t = max now s)
        \<and> (\<forall>task\<in>set tasks. \<forall>s' e'. result (task now) = Some (s', Rejected e') \<longrightarrow> t \<le> max now s'))"
proof -
  assume h: "\<not> serial h" and w: "w = wait h now tasks"
  then have wp: "w = wait_parallel now tasks" by (simp add: wait_def)
  have c1: "calls w = map (\<lambda>task. (now, task now)) tasks"
    by (simp only: wp wait_parallel_calls)
  have c2: "(\<exists>t. completion w = Some (t, Fulfilled ())) \<longleftrightarrow>
        (\<forall>task\<in>set tasks. \<exists>s. result (task now) = Some (s, Fulfilled ()))"
    by (simp only: wp wait_parallel_fulfilled_iff)
  have c3: "\<forall>t. completion w = Some (t, Fulfilled ()) \<longrightarrow>
        (\<forall>task\<in>set tasks. \<exists>s. result (task now) = Some (s, Fulfilled ()) \<and> s \<le> t)"
    unfolding wp using wait_parallel_fulfilled_time [of now tasks] by blast
  have c4: "(\<exists>task\<in>set tasks. \<exists>s e. result (task now) = Some (s, Rejected e)) \<longrightarrow>
        (\<exists>t e. completion w = Some (t, Rejected e))"
    unfolding wp using wait_parallel_some_rejection [of _ tasks now] by blast
  have c5: "\<forall>t e. completion w = Some (t, Rejected e) \<longrightarrow>
        (\<exists>task\<in>set tasks. \<exists>s. result (task now) = Some (s, Rejected e) \<and> t = max now s)
        \<and> (\<forall>task\<in>set tasks. \<forall>s' e'. result (task now) = Some (s', Rejected e') \<longrightarrow> t \<le> max now s')"
    unfolding wp using wait_parallel_rejected_first [of now tasks] by blast
  from c1 c2 c3 c4 c5 show ?thesis by (intro conjI)
qed

theorem parallel_coordination_witness:
  "\<not> serial \<lparr>argv = [''node'', ''build.mjs''], environ = [], platform = ''linux'',
           arch = ''x64'', cwd = [''work''], srcDir = [''repo'']\<rparr>
   \<and> calls (wait \<lparr>argv = [''node'', ''build.mjs''], environ = [], platform = ''linux'',
           arch = ''x64'', cwd = [''work''], srcDir = [''repo'']\<rparr> 0
        [\<lambda>t. \<lparr>effects = [(t, ''A'')], result = Some (t + 5, Fulfilled ())\<rparr>,
         \<lambda>t. \<lparr>effects = [(t, ''B'')], result = Some (t + 2, Rejected (Error ''B failed'' :: nat error))\<rparr>,
         \<lambda>t. \<lparr>effects = [(t, ''C'')], result = Some (t + 9, Rejected (Error ''C failed''))\<rparr>])
      = [(0, \<lparr>effects = [(0, ''A'')], result = Some (5, Fulfilled ())\<rparr>),
         (0, \<lparr>effects = [(0, ''B'')], result = Some (2, Rejected (Error ''B failed''))\<rparr>),
         (0, \<lparr>effects = [(0, ''C'')], result = Some (9, Rejected (Error ''C failed''))\<rparr>)]
   \<and> completion (wait \<lparr>argv = [''node'', ''build.mjs''], environ = [], platform = ''linux'',
           arch = ''x64'', cwd = [''work''], srcDir = [''repo'']\<rparr> 0
        [\<lambda>t. \<lparr>effects = [(t, ''A'')], result = Some (t + 5, Fulfilled ())\<rparr>,
         \<lambda>t. \<lparr>effects = [(t, ''B'')], result = Some (t + 2, Rejected (Error ''B failed'' :: nat error))\<rparr>,
         \<lambda>t. \<lparr>effects = [(t, ''C'')], result = Some (t + 9, Rejected (Error ''C failed''))\<rparr>])
      = Some (2, Rejected (Error ''B failed''))"
proof -
  let ?h = "\<lparr>argv = [''node'', ''build.mjs''], environ = [], platform = ''linux'',
           arch = ''x64'', cwd = [''work''], srcDir = [''repo'']\<rparr>"
  let ?tasks = "[\<lambda>t. \<lparr>effects = [(t, ''A'')], result = Some (t + 5, Fulfilled ())\<rparr>,
         \<lambda>t. \<lparr>effects = [(t, ''B'')], result = Some (t + 2, Rejected (Error ''B failed'' :: nat error))\<rparr>,
         \<lambda>t::nat. \<lparr>effects = [(t, ''C'')], result = Some (t + 9, Rejected (Error ''C failed''))\<rparr>]"
  have s: "\<not> serial ?h" by (simp add: serial_def)
  from parallel_coordination [OF s refl, of 0 ?tasks]
  have c: "calls (wait ?h 0 ?tasks) = map (\<lambda>task. (0, task 0)) ?tasks"
    by blast
  have r: "completion (wait ?h 0 ?tasks) = Some (2, Rejected (Error ''B failed''))"
    by (simp add: wait_def serial_def wait_parallel_def promise_all_def promise_resolve_def await_def)
  from s c r show ?thesis by simp
qed

section \<open>The build pipeline\<close>

lemma wait_calls_are_tasks:
  assumes "(c, a) \<in> set (calls (wait h now tasks))"
  shows "\<exists>task\<in>set tasks. a = task c"
proof (cases "serial h")
  case True
  from assms obtain k where k: "k < length (calls (wait_serial now tasks))"
    "calls (wait_serial now tasks) ! k = (c, a)"
    by (auto simp: wait_def True in_set_conv_nth)
  from wait_serial_nth [OF k(1)] k(2) have "a = (tasks ! k) c" by simp
  moreover from k(1) wait_serial_length [of now tasks] have "k < length tasks" by simp
  ultimately show ?thesis by auto
next
  case False
  with assms show ?thesis by (auto simp: wait_def wait_parallel_calls)
qed

lemma wait_single:
  "calls (wait h now [task]) = [(now, task now)]"
proof (cases "serial h")
  case True
  then show ?thesis
    by (cases "result (task now)" rule: promise_cases) (simp_all add: wait_def wait_serial_steps)
next
  case False
  then show ?thesis by (simp add: wait_def wait_parallel_calls)
qed

text \<open>
  Claim C5. \<open>buildMain\<close> hands its tasks to \<open>wait\<close> in one call and returns what \<open>wait\<close>
  returns. On a host whose platform name does not start with \<open>win\<close> the list is the
  single task that bundles the main-process JavaScript, and that task is called once, at
  the time of the call. On a host whose platform name starts with \<open>win\<close> the list is the
  four tasks: the bundling, the WSL helper, and the nerdctl stub for Windows and for
  Linux, in this order. Of the platform names Node reports, \<open>win32\<close> gives four tasks and
  each of the others gives one.
\<close>

theorem buildMain_task_list:
  "(\<not> prefix ''win'' (platform h) \<longrightarrow>
       buildMain_tasks h w = [buildJavaScript h w]
     \<and> buildMain h w now = wait h now [buildJavaScript h w]
     \<and> calls (buildMain h w now) = [(now, buildJavaScript h w now)])
   \<and> (prefix ''win'' (platform h) \<longrightarrow>
       buildMain_tasks h w =
         [buildJavaScript h w, buildWSLHelper h w,
          buildNerdctlStub h w ''windows'', buildNerdctlStub h w ''linux'']
     \<and> buildMain h w now = wait h now
         [buildJavaScript h w, buildWSLHelper h w,
          buildNerdctlStub h w ''windows'', buildNerdctlStub h w ''linux''])
   \<and> (platform h = ''win32'' \<longrightarrow> length (buildMain_tasks h w) = 4)
   \<and> (platform h \<in> set [''aix'', ''android'', ''darwin'', ''freebsd'', ''linux'', ''openbsd'', ''sunos'']
        \<longrightarrow> length (buildMain_tasks h w) = 1)
   \<and> buildMain h w now = wait h now (buildMain_tasks h w)"
proof -
  have a: "\<not> prefix ''win'' (platform h) \<longrightarrow>
       buildMain_tasks h w = [buildJavaScript h w]
     \<and> buildMain h w now = wait h now [buildJavaScript h w]
     \<and> calls (buildMain h w now) = [(now, buildJavaScript h w now)]"
    by (simp add: buildMain_def buildMain_tasks_def wait_single)
  have b: "prefix ''win'' (platform h) \<longrightarrow>
       buildMain_tasks h w =
         [buildJavaScript h w, buildWSLHelper h w,
          buildNerdctlStub h w ''windows'', buildNerdctlStub h w ''linux'']
     \<and> buildMain h w now = wait h now
         [buildJavaScript h w, buildWSLHelper h w,
          buildNerdctlStub h w ''windows'', buildNerdctlStub h w ''linux'']"
    by (simp add: buildMain_def buildMain_tasks_def)
  have c: "platform h = ''win32'' \<longrightarrow> length (buildMain_tasks h w) = 4"
    by (simp add: buildMain_tasks_def)
  have d: "platform h \<in> set [''aix'', ''android'', ''darwin'', ''freebsd'', ''linux'', ''openbsd'', ''sunos'']
        \<longrightarrow> length (buildMain_tasks h w) = 1"
    by (auto simp: buildMain_tasks_def)
  have e: "buildMain h w now = wait h now (buildMain_tasks h w)"
    by (simp add: buildMain_def)
  from a b c d e show ?thesis by (intro conjI)
qed


theorem buildMain_task_list_witness:
  "prefix ''win'' (platform windows_host)
   \<and> length (buildMain_tasks windows_host quiet_world) = 4
   \<and> \<not> prefix ''win'' (platform mac_host)
   \<and> calls (buildMain mac_host quiet_world 0)
      = [(0, \<lparr>effects = [(0, WebpackRun), (10, ConsoleLog ''built'')], result = Some (10, Fulfilled ())\<rparr>)]"
proof -
  have p: "prefix ''win'' (platform windows_host)" "\<not> prefix ''win'' (platform mac_host)"
    by (simp_all add: windows_host_def mac_host_def)
  have js: "buildJavaScript mac_host quiet_world 0 =
      \<lparr>effects = [(0, WebpackRun), (10, ConsoleLog ''built'')], result = Some (10, Fulfilled ())\<rparr>"
    by (simp add: buildJavaScript_def quiet_world_def)
  from buildMain_task_list [of windows_host quiet_world 0] p(1)
  have "length (buildMain_tasks windows_host quiet_world) = 4" by simp
  moreover from buildMain_task_list [of mac_host quiet_world 0] p(2)
  have "calls (buildMain mac_host quiet_world 0) = [(0, buildJavaScript mac_host quiet_world 0)]" by blast
  ultimately show ?thesis using p js by simp
qed

lemma then_do_never:
  "result r = None \<Longrightarrow> then_do now r k = \<lparr>effects = effects r, result = None\<rparr>"
  by (simp add: then_do_def await_def)

lemma then_do_rejected:
  "result r = Some (s, Rejected e) \<Longrightarrow>
   then_do now r k = \<lparr>effects = effects r, result = Some (max now s, Rejected e)\<rparr>"
  by (simp add: then_do_def await_def)

lemma then_do_fulfilled:
  "result r = Some (s, Fulfilled v) \<Longrightarrow>
   then_do now r k =
     \<lparr>effects = effects r @ effects (k (max now s) v), result = result (k (max now s) v)\<rparr>"
  by (simp add: then_do_def await_def Let_def)

lemmas then_do_steps = then_do_never then_do_rejected then_do_fulfilled

lemma then_do_returned [simp]:
  fixes r :: "('f, unit, 'e) activity"
  shows "then_do now r returned = \<lparr>effects = effects r, result = await now (result r)\<rparr>"
  by (cases "result r" rule: promise_cases) (simp_all add: then_do_steps returned_def await_def)

lemma then_do_returned_unit [simp]:
  "then_do now r (\<lambda>t _. returned t ()) = \<lparr>effects = effects r, result = await now (result r)\<rparr>"
  by (cases "result r" rule: promise_cases) (simp_all add: then_do_steps returned_def await_def)

lemma stub_build_effects:
  "\<exists>inv. effects (stub_build h w os now) = [(now, Spawned inv)]"
  by (simp add: stub_build_def spawn_def Let_def split: prod.splits)

lemma copy_step:
  "then_do t (copyFile w src dst t) (\<lambda>t' _. returned t' ()) =
     \<lparr>effects = [(t, CopyFile src dst)], result = await t (copy_done w src dst t)\<rparr>"
  by (simp add: copyFile_def)

lemma buildNerdctlStub_failed:
  assumes "os \<in> set [''windows'', ''linux'']"
    and "\<forall>ts. result (stub_build h w os now) \<noteq> Some (ts, Fulfilled ())"
  shows "buildNerdctlStub h w os now =
     \<lparr>effects = effects (stub_build h w os now), result = await now (result (stub_build h w os now))\<rparr>"
proof -
  obtain outFile sourceFile destFile where f: "stub_files h os = (outFile, sourceFile, destFile)"
    by (cases "stub_files h os")
  show ?thesis
  proof (cases "result (stub_build h w os now)" rule: promise_cases)
    case never
    with assms(1) f show ?thesis by (simp add: buildNerdctlStub_def then_do_steps await_def)
  next
    case (rejected s e)
    with assms(1) f show ?thesis by (simp add: buildNerdctlStub_def then_do_steps await_def)
  next
    case (fulfilled s v)
    with assms(2) show ?thesis by simp
  qed
qed

lemma buildNerdctlStub_built:
  assumes "os \<in> set [''windows'', ''linux'']"
    and "result (stub_build h w os now) = Some (ts, Fulfilled ())"
    and "stub_files h os = (outFile, sourceFile, destFile)"
  shows "buildNerdctlStub h w os now =
     \<lparr>effects = effects (stub_build h w os now) @ [(max now ts, CopyFile sourceFile destFile)],
      result = await (max now ts) (copy_done w sourceFile destFile (max now ts))\<rparr>"
  using assms by (simp add: buildNerdctlStub_def then_do_fulfilled copyFile_def)

lemma buildNerdctlStub_copy:
  assumes "os \<in> set [''windows'', ''linux'']"
    and "(t, CopyFile s d) \<in> set (effects (buildNerdctlStub h w os now))"
  shows "\<exists>ts. result (stub_build h w os now) = Some (ts, Fulfilled ()) \<and> t = max now ts
     \<and> s = fst (snd (stub_files h os)) \<and> d = snd (snd (stub_files h os))"
proof (cases "\<exists>ts. result (stub_build h w os now) = Some (ts, Fulfilled ())")
  case True
  then obtain ts where ts: "result (stub_build h w os now) = Some (ts, Fulfilled ())" by blast
  obtain outFile sourceFile destFile where f: "stub_files h os = (outFile, sourceFile, destFile)"
    by (cases "stub_files h os")
  from stub_build_effects [of h w os now] obtain inv
    where inv: "effects (stub_build h w os now) = [(now, Spawned inv)]" by blast
  from assms(2) buildNerdctlStub_built [OF assms(1) ts f] inv f ts show ?thesis by auto
next
  case False
  then have "\<forall>ts. result (stub_build h w os now) \<noteq> Some (ts, Fulfilled ())" by blast
  from buildNerdctlStub_failed [OF assms(1) this] assms(2) stub_build_effects [of h w os now]
  show ?thesis by auto
qed

lemma buildJavaScript_no_copy: "(t, CopyFile s d) \<notin> set (effects (buildJavaScript h w now))"
  by (auto simp: buildJavaScript_def split: option.splits bundle_report.splits if_splits)

lemma buildWSLHelper_no_copy: "(t, CopyFile s d) \<notin> set (effects (buildWSLHelper h w now))"
  by (simp add: buildWSLHelper_def spawn_def Let_def)

lemma buildMain_copy:
  assumes "(c, a) \<in> set (calls (buildMain h w now))"
    and "(t, CopyFile s d) \<in> set (effects a)"
  shows "\<exists>os ts. os \<in> set [''windows'', ''linux''] \<and> a = buildNerdctlStub h w os c
     \<and> result (stub_build h w os c) = Some (ts, Fulfilled ()) \<and> t = max c ts"
proof -
  from wait_calls_are_tasks [OF assms(1) [unfolded buildMain_def]]
  obtain task where task: "task \<in> set (buildMain_tasks h w)" "a = task c" by blast
  from task(1) have "task = buildJavaScript h w \<or> task = buildWSLHelper h w
      \<or> task = buildNerdctlStub h w ''windows'' \<or> task = buildNerdctlStub h w ''linux''"
    by (auto simp: buildMain_tasks_def split: if_splits)
  then show ?thesis
  proof (elim disjE)
    assume "task = buildJavaScript h w"
    with task(2) assms(2) buildJavaScript_no_copy show ?thesis by blast
  next
    assume "task = buildWSLHelper h w"
    with task(2) assms(2) buildWSLHelper_no_copy show ?thesis by blast
  next
    assume t: "task = buildNerdctlStub h w ''windows''"
    have os: "''windows'' \<in> set [''windows'', ''linux'']" by simp
    from buildNerdctlStub_copy [OF os, of t s d h w c] assms(2) task(2) t os show ?thesis by blast
  next
    assume t: "task = buildNerdctlStub h w ''linux''"
    have os: "''linux'' \<in> set [''windows'', ''linux'']" by simp
    from buildNerdctlStub_copy [OF os, of t s d h w c] assms(2) task(2) t os show ?thesis by blast
  qed
qed

text \<open>
  Claim C6. In \<open>buildNerdctlStub\<close> for \<open>windows\<close> or \<open>linux\<close>, a copy to the staged file name
  happens only when the promise of the \<open>go build\<close> child process is fulfilled, at the time
  it settled or later, and it copies the source file to the destination file of that
  target. When the build's promise is rejected or never settles, the task has no effect
  but the spawn, and its promise does what the build's promise did. When the build is
  fulfilled, the copy is the one effect that follows the spawn. This holds in every
  coordination mode: in any call \<open>wait\<close> makes for \<open>buildMain\<close>, a copy belongs to a nerdctl
  stub task whose own build was fulfilled before.
\<close>

theorem staging_copy_after_build:
  "os \<in> set [''windows'', ''linux''] \<Longrightarrow>
     (\<forall>t s d. (t, CopyFile s d) \<in> set (effects (buildNerdctlStub h w os now)) \<longrightarrow>
        (\<exists>ts. result (stub_build h w os now) = Some (ts, Fulfilled ()) \<and> t = max now ts
           \<and> s = fst (snd (stub_files h os)) \<and> d = snd (snd (stub_files h os))))
   \<and> ((\<forall>ts. result (stub_build h w os now) \<noteq> Some (ts, Fulfilled ())) \<longrightarrow>
        buildNerdctlStub h w os now =
          \<lparr>effects = effects (stub_build h w os now),
           result = await now (result (stub_build h w os now))\<rparr>)
   \<and> (\<forall>ts. result (stub_build h w os now) = Some (ts, Fulfilled ()) \<longrightarrow>
        effects (buildNerdctlStub h w os now) =
          effects (stub_build h w os now)
          @ [(max now ts, CopyFile (fst (snd (stub_files h os))) (snd (snd (stub_files h os))))])
   \<and> (\<forall>c a t s d. (c, a) \<in> set (calls (buildMain h w now)) \<and> (t, CopyFile s d) \<in> set (effects a) \<longrightarrow>
        (\<exists>os' ts. os' \<in> set [''windows'', ''linux''] \<and> a = buildNerdctlStub h w os' c
           \<and> result (stub_build h w os' c) = Some (ts, Fulfilled ()) \<and> t = max c ts))"
proof -
  assume os: "os \<in> set [''windows'', ''linux'']"
  have a: "\<forall>t s d. (t, CopyFile s d) \<in> set (effects (buildNerdctlStub h w os now)) \<longrightarrow>
        (\<exists>ts. result (stub_build h w os now) = Some (ts, Fulfilled ()) \<and> t = max now ts
           \<and> s = fst (snd (stub_files h os)) \<and> d = snd (snd (stub_files h os)))"
    using buildNerdctlStub_copy [OF os] by blast
  have b: "(\<forall>ts. result (stub_build h w os now) \<noteq> Some (ts, Fulfilled ())) \<longrightarrow>
        buildNerdctlStub h w os now =
          \<lparr>effects = effects (stub_build h w os now),
           result = await now (result (stub_build h w os now))\<rparr>"
    using buildNerdctlStub_failed [OF os] by blast
  have c: "\<forall>ts. result (stub_build h w os now) = Some (ts, Fulfilled ()) \<longrightarrow>
        effects (buildNerdctlStub h w os now) =
          effects (stub_build h w os now)
          @ [(max now ts, CopyFile (fst (snd (stub_files h os))) (snd (snd (stub_files h os))))]"
  proof (intro allI impI)
    fix ts assume ts: "result (stub_build h w os now) = Some (ts, Fulfilled ())"
    obtain outFile sourceFile destFile where f: "stub_files h os = (outFile, sourceFile, destFile)"
      by (cases "stub_files h os")
    from buildNerdctlStub_built [OF os ts f] f
    show "effects (buildNerdctlStub h w os now) =
          effects (stub_build h w os now)
          @ [(max now ts, CopyFile (fst (snd (stub_files h os))) (snd (snd (stub_files h os))))]"
      by simp
  qed
  have d: "\<forall>c a t s d. (c, a) \<in> set (calls (buildMain h w now)) \<and> (t, CopyFile s d) \<in> set (effects a) \<longrightarrow>
        (\<exists>os' ts. os' \<in> set [''windows'', ''linux''] \<and> a = buildNerdctlStub h w os' c
           \<and> result (stub_build h w os' c) = Some (ts, Fulfilled ()) \<and> t = max c ts)"
    using buildMain_copy [of _ _ h w now] by blast
  from a b c d show ?thesis by (intro conjI)
qed

lemma number_string_1: "number_string 1 = ''1''"
  by (simp add: number_string_def decimal_digits.simps digit_char_def)

lemma windows_host_invocation:
  "spawn_invocation windows_host cmd as
     (Some \<lparr>opt_cwd = Some d, opt_stdio = None,
            opt_env = Some (AList.update ''GOOS'' os (environ windows_host))\<rparr>) =
   \<lparr>command = cmd, arguments = as, directory = d, stdio = ''inherit'',
    environment = Some [(''GOOS'', os)]\<rparr>"
  by (simp add: spawn_invocation_def windows_host_def)

lemma quiet_world_child_events:
  "child_events quiet_world iv t =
     (if environment iv = Some [(''GOOS'', ''linux'')]
      then [(t + 3, Exit (Some 1) None), (t + 4, Close)]
      else [(t + 3, Exit (Some 0) None), (t + 4, Close)])"
  by (simp add: quiet_world_def)

lemma quiet_world_windows_build:
  "result (stub_build windows_host quiet_world ''windows'' 0) = Some (4, Fulfilled ())"
  by (simp add: stub_build_def stub_files_def spawn_def Let_def windows_host_invocation
      quiet_world_child_events spawn_listeners_exit_code spawn_listeners_close)

lemma quiet_world_linux_build:
  "result (stub_build windows_host quiet_world ''linux'' 0) =
     Some (3, Rejected (Error ''Process exited with code 1''))"
  by (simp add: stub_build_def stub_files_def spawn_def Let_def windows_host_invocation
      quiet_world_child_events spawn_listeners_exit_code spawn_listeners_close number_string_1)

lemma windows_host_stub_files:
  "stub_files windows_host ''windows'' =
     ([''repo'', ''resources'', ''win32'', ''bin'', ''nerdctl.exe''],
      [''repo'', ''resources'', ''win32'', ''bin'', ''nerdctl.exe''],
      [''repo'', ''resources'', ''win32'', ''bin'', ''docker.exe''])"
  by (simp add: stub_files_def windows_host_def)

theorem staging_copy_after_build_witness:
  "''windows'' \<in> set [''windows'', ''linux'']
   \<and> result (stub_build windows_host quiet_world ''windows'' 0) = Some (4, Fulfilled ())
   \<and> effects (buildNerdctlStub windows_host quiet_world ''windows'' 0) =
       effects (stub_build windows_host quiet_world ''windows'' 0)
       @ [(4, CopyFile [''repo'', ''resources'', ''win32'', ''bin'', ''nerdctl.exe'']
                       [''repo'', ''resources'', ''win32'', ''bin'', ''docker.exe''])]
   \<and> result (stub_build windows_host quiet_world ''linux'' 0) =
       Some (3, Rejected (Error ''Process exited with code 1''))
   \<and> buildNerdctlStub windows_host quiet_world ''linux'' 0 =
       \<lparr>effects = effects (stub_build windows_host quiet_world ''linux'' 0),
        result = Some (3, Rejected (Error ''Process exited with code 1''))\<rparr>"
proof -
  have w: "''windows'' \<in> set [''windows'', ''linux'']" and l: "''linux'' \<in> set [''windows'', ''linux'']"
    by simp_all
  note bw = quiet_world_windows_build and bl = quiet_world_linux_build
  from staging_copy_after_build [OF w, of windows_host quiet_world 0]
  have "\<forall>ts. result (stub_build windows_host quiet_world ''windows'' 0) = Some (ts, Fulfilled ()) \<longrightarrow>
        effects (buildNerdctlStub windows_host quiet_world ''windows'' 0) =
          effects (stub_build windows_host quiet_world ''windows'' 0)
          @ [(max 0 ts, CopyFile (fst (snd (stub_files windows_host ''windows'')))
                (snd (snd (stub_files windows_host ''windows''))))]"
    by blast
  from this [rule_format, OF bw]
  have a: "effects (buildNerdctlStub windows_host quiet_world ''windows'' 0) =
       effects (stub_build windows_host quiet_world ''windows'' 0)
       @ [(4, CopyFile [''repo'', ''resources'', ''win32'', ''bin'', ''nerdctl.exe'']
                       [''repo'', ''resources'', ''win32'', ''bin'', ''docker.exe''])]"
    by (simp add: windows_host_stub_files)
  from staging_copy_after_build [OF l, of windows_host quiet_world 0]
  have "(\<forall>ts. result (stub_build windows_host quiet_world ''linux'' 0) \<noteq> Some (ts, Fulfilled ())) \<longrightarrow>
        buildNerdctlStub windows_host quiet_world ''linux'' 0 =
          \<lparr>effects = effects (stub_build windows_host quiet_world ''linux'' 0),
           result = await 0 (result (stub_build windows_host quiet_world ''linux'' 0))\<rparr>"
    by blast
  moreover have "\<forall>ts. result (stub_build windows_host quiet_world ''linux'' 0) \<noteq> Some (ts, Fulfilled ())"
    by (simp add: bl)
  ultimately have b: "buildNerdctlStub windows_host quiet_world ''linux'' 0 =
       \<lparr>effects = effects (stub_build windows_host quiet_world ''linux'' 0),
        result = Some (3, Rejected (Error ''Process exited with code 1''))\<rparr>"
    by (simp add: bl await_def)
  from w bw a bl b show ?thesis by (intro conjI)
qed

section \<open>The mode toggle\<close>

text \<open>
  Claim C9. \<open>serial\<close> holds exactly when some element of \<open>process.argv\<close> is the string
  \<open>--serial\<close>. Every call of \<open>wait\<close> reads it from the host it is called on, and returns
  nothing but its coordination: the argument list is an input of the call only. Two calls
  on hosts that differ only in a \<open>--serial\<close> appended to the arguments behave differently:
  of two tasks that fail at once, the first call runs both and the second runs one.
\<close>

theorem serial_toggle:
  "(serial h \<longleftrightarrow> ''--serial'' \<in> set (argv h))
   \<and> wait h now tasks =
       (if ''--serial'' \<in> set (argv h) then wait_serial now tasks else wait_parallel now tasks)
   \<and> (''--serial'' \<notin> set (argv h) \<longrightarrow>
        length (calls (wait h now [\<lambda>t. thrown t e, \<lambda>t. thrown t e])) = 2
      \<and> length (calls (wait (h\<lparr>argv := argv h @ [''--serial'']\<rparr>) now [\<lambda>t. thrown t e, \<lambda>t. thrown t e])) = 1)"
proof -
  have a: "serial h \<longleftrightarrow> ''--serial'' \<in> set (argv h)"
    by (auto simp: serial_def list_ex_iff)
  have b: "wait h now tasks =
       (if ''--serial'' \<in> set (argv h) then wait_serial now tasks else wait_parallel now tasks)"
    by (simp add: wait_def a)
  have c: "''--serial'' \<notin> set (argv h) \<longrightarrow>
        length (calls (wait h now [\<lambda>t. thrown t e, \<lambda>t. thrown t e])) = 2
      \<and> length (calls (wait (h\<lparr>argv := argv h @ [''--serial'']\<rparr>) now [\<lambda>t. thrown t e, \<lambda>t. thrown t e])) = 1"
    by (simp add: wait_def serial_def list_ex_iff wait_parallel_calls wait_serial_step_rejected thrown_def)
  from a b c show ?thesis by (intro conjI)
qed

theorem serial_toggle_witness:
  "''--serial'' \<notin> set (argv windows_host)
   \<and> \<not> serial windows_host
   \<and> serial (windows_host\<lparr>argv := argv windows_host @ [''--serial'']\<rparr>)
   \<and> length (calls (wait windows_host 0
        [\<lambda>t. thrown t (Error ''no'' :: nat error),
         \<lambda>t. (thrown t (Error ''no'') :: (effect, unit, nat error) activity)])) = 2
   \<and> length (calls (wait (windows_host\<lparr>argv := argv windows_host @ [''--serial'']\<rparr>) 0
        [\<lambda>t. thrown t (Error ''no'' :: nat error),
         \<lambda>t. (thrown t (Error ''no'') :: (effect, unit, nat error) activity)])) = 1"
proof -
  let ?e = "Error ''no'' :: nat error"
  let ?none = "[] :: (effect, nat error) task list"
  let ?h' = "windows_host\<lparr>argv := argv windows_host @ [''--serial'']\<rparr>"
  have n: "''--serial'' \<notin> set (argv windows_host)" by (simp add: windows_host_def)
  have y: "''--serial'' \<in> set (argv ?h')" by simp
  note t1 = serial_toggle [where h = windows_host and now = 0 and e = ?e and tasks = ?none]
  note t2 = serial_toggle [where h = ?h' and now = 0 and e = ?e and tasks = ?none]
  from t1 n have a: "\<not> serial windows_host" by blast
  from t2 y have b: "serial ?h'" by blast
  from t1 n have c: "length (calls (wait windows_host 0 [\<lambda>t. thrown t ?e,
         \<lambda>t. (thrown t ?e :: (effect, unit, nat error) activity)])) = 2
      \<and> length (calls (wait ?h' 0 [\<lambda>t. thrown t ?e,
         \<lambda>t. (thrown t ?e :: (effect, unit, nat error) activity)])) = 1"
    by blast
  from n a b c show ?thesis by (intro conjI) blast+
qed

section \<open>Acquiring Lima\<close>

lemma lima_listeners_Settled [simp]: "lima_listeners ev (Settled r) = Settled r"
  by (cases ev) (simp_all add: lima_listeners_def lima_on_exit_def)

lemma foldl_lima_Settled [simp]:
  "foldl (\<lambda>st ev. lima_listeners ev st) (Settled r) evs = Settled r"
  by (induction evs) simp_all

lemma lima_listeners_exit:
  "lima_listeners (Exit code signal) Pending =
     (if code = Some 0 then Settled (Fulfilled ())
      else Settled (Rejected (Error (''Lima extract failed with '' @ code_or_signal code signal))))"
  by (simp add: lima_listeners_def lima_on_exit_def)

lemma extract_state_exit:
  "extract_state (Exit code signal # rest) =
     (if code = Some 0 then Settled (Fulfilled ())
      else Settled (Rejected (Error (''Lima extract failed with '' @ code_or_signal code signal))))"
  by (simp add: extract_state_def deliver_def lima_listeners_exit)

lemma extract_promise_state:
  "extract_state (map snd tevs) =
     (case settle_by lima_listeners tevs of None \<Rightarrow> Pending | Some (t, r) \<Rightarrow> Settled r)"
  unfolding extract_state_def by (rule settle_by_state) simp

text \<open>
  The extraction of \<open>getLima\<close> is not the Process Supervisor. In a world where \<open>tar\<close> is
  terminated by SIGTERM, \<open>spawn\<close> of build-utils.mjs on the same command is fulfilled, and
  the extraction is rejected.
\<close>

theorem extract_not_supervisor_counterexample:
  "result (spawn mac_host sigterm_world ''/usr/bin/tar'' [Lit ''-xf'', File [''lima.tgz'']]
       (Some \<lparr>opt_cwd = Some [''lima''], opt_stdio = Some ''inherit'', opt_env = None\<rparr>) 0)
     = Some (2, Fulfilled ())
   \<and> result (extract_archive sigterm_world [''lima.tgz''] [''lima''] 0)
     = Some (1, Rejected (Error ''Lima extract failed with SIGTERM''))
   \<and> spawn_state ([Exit None (Some ''SIGTERM''), Close] :: nat child_event list) = Settled (Fulfilled ())
   \<and> extract_state ([Exit None (Some ''SIGTERM''), Close] :: nat child_event list)
     = Settled (Rejected (Error ''Lima extract failed with SIGTERM''))"
proof -
  have ev: "child_events sigterm_world c t = [(t + 1, Exit None (Some ''SIGTERM'')), (t + 2, Close)]" for c t
    by (simp add: sigterm_world_def)
  have a: "result (spawn mac_host sigterm_world ''/usr/bin/tar'' [Lit ''-xf'', File [''lima.tgz'']]
       (Some \<lparr>opt_cwd = Some [''lima''], opt_stdio = Some ''inherit'', opt_env = None\<rparr>) 0)
     = Some (2, Fulfilled ())"
    by (simp add: spawn_def Let_def ev spawn_listeners_exit_signal spawn_listeners_close)
  have b: "result (extract_archive sigterm_world [''lima.tgz''] [''lima''] 0)
     = Some (1, Rejected (Error ''Lima extract failed with SIGTERM''))"
    by (simp add: extract_archive_def Let_def ev lima_listeners_exit code_or_signal_def await_def)
  have c: "spawn_state ([Exit None (Some ''SIGTERM''), Close] :: nat child_event list) = Settled (Fulfilled ())"
    by (simp add: spawn_state_exit_signal)
  have d: "extract_state ([Exit None (Some ''SIGTERM''), Close] :: nat child_event list)
     = Settled (Rejected (Error ''Lima extract failed with SIGTERM''))"
    by (simp add: extract_state_exit code_or_signal_def)
  from a b c d show ?thesis by (intro conjI)
qed

text \<open>
  Claim C4, as the code has it. The extraction of \<open>getLima\<close> classifies the exit of \<open>tar\<close>
  itself: its promise is fulfilled exactly when the exit code is 0, and rejected with
  \<open>Lima extract failed with\<close> and the code or the signal on every other exit. For a
  process that exits by itself, with a code and no signal, it succeeds exactly when
  the Process Supervisor's promise for the same events does. A process terminated by a
  signal, SIGTERM as any other, is a failure of the extraction.
\<close>

theorem extract_classification:
  "extract_state (Exit code signal # rest) =
     (if code = Some 0 then Settled (Fulfilled ())
      else Settled (Rejected (Error (''Lima extract failed with '' @ code_or_signal code signal))))
   \<and> ((extract_state (Exit (Some c) None # Close # rest) = Settled (Fulfilled ())) =
       (spawn_state (Exit (Some c) None # Close # rest) = Settled (Fulfilled ())))
   \<and> extract_state (Exit None (Some s) # Close # rest) =
       Settled (Rejected (Error (''Lima extract failed with '' @ s)))
   \<and> result (extract_archive w tarPath limaDir now) =
       await now (settle_by lima_listeners (child_events w
         \<lparr>command = ''/usr/bin/tar'', arguments = [Lit ''-xf'', File tarPath],
          directory = limaDir, stdio = ''inherit'', environment = None\<rparr> now))"
proof -
  have a: "extract_state (Exit code signal # rest) =
     (if code = Some 0 then Settled (Fulfilled ())
      else Settled (Rejected (Error (''Lima extract failed with '' @ code_or_signal code signal))))"
    by (rule extract_state_exit)
  have b: "(extract_state (Exit (Some c) None # Close # rest) = Settled (Fulfilled ())) =
       (spawn_state (Exit (Some c) None # Close # rest) = Settled (Fulfilled ()))"
    by (simp add: extract_state_exit spawn_state_exit_code)
  have c: "extract_state (Exit None (Some s) # Close # rest) =
       Settled (Rejected (Error (''Lima extract failed with '' @ s)))"
    by (simp add: extract_state_exit code_or_signal_def)
  have d: "result (extract_archive w tarPath limaDir now) =
       await now (settle_by lima_listeners (child_events w
         \<lparr>command = ''/usr/bin/tar'', arguments = [Lit ''-xf'', File tarPath],
          directory = limaDir, stdio = ''inherit'', environment = None\<rparr> now))"
    by (simp add: extract_archive_def Let_def)
  from a b c d show ?thesis by (intro conjI)
qed

theorem extract_classification_witness:
  "extract_state ([Exit (Some 0) None, Close] :: nat child_event list) = Settled (Fulfilled ())
   \<and> extract_state ([Exit (Some 2) None, Close] :: nat child_event list) =
       Settled (Rejected (Error ''Lima extract failed with 2''))
   \<and> spawn_state ([Exit (Some 2) None, Close] :: nat child_event list) \<noteq> Settled (Fulfilled ())
   \<and> extract_state ([Exit None (Some ''SIGTERM''), Close] :: nat child_event list) =
       Settled (Rejected (Error ''Lima extract failed with SIGTERM''))"
proof -
  have two: "number_string 2 = ''2''"
    by (simp add: number_string_def decimal_digits.simps digit_char_def)
  note t0 = extract_classification [where code = "Some 0" and signal = None and c = 2
      and s = "''SIGTERM''" and rest = "[Close] :: nat child_event list"
      and w = sigterm_world and tarPath = "[]" and limaDir = "[]" and now = 0]
  note t1 = extract_classification [where code = "Some 2" and signal = None and c = 2
      and s = "''SIGTERM''" and rest = "[Close] :: nat child_event list"
      and w = sigterm_world and tarPath = "[]" and limaDir = "[]" and now = 0]
  note t2 = extract_classification [where code = "Some 2" and signal = None and c = 2
      and s = "''SIGTERM''" and rest = "[] :: nat child_event list"
      and w = sigterm_world and tarPath = "[]" and limaDir = "[]" and now = 0]
  from t0 have a: "extract_state ([Exit (Some 0) None, Close] :: nat child_event list) = Settled (Fulfilled ())"
    by simp
  from t1 have b: "extract_state ([Exit (Some 2) None, Close] :: nat child_event list) =
       Settled (Rejected (Error ''Lima extract failed with 2''))"
    by (simp add: code_or_signal_def two)
  from t2 b have c: "spawn_state ([Exit (Some 2) None, Close] :: nat child_event list) \<noteq> Settled (Fulfilled ())"
    by simp
  from t2 have d: "extract_state ([Exit None (Some ''SIGTERM''), Close] :: nat child_event list) =
       Settled (Rejected (Error ''Lima extract failed with SIGTERM''))"
    by simp
  from a b c d show ?thesis by (intro conjI)
qed

lemma js_split_head:
  "\<exists>fs. js_split sep cs = takeWhile (\<lambda>c. \<not> sep c) cs # fs"
proof (induction sep cs rule: js_split.induct)
  case (1 sep)
  then show ?case by simp
next
  case (2 sep c cs)
  show ?case
  proof (cases "sep c")
    case True
    then show ?thesis by simp
  next
    case False
    with 2(2) obtain fs where "js_split sep cs = takeWhile (\<lambda>c. \<not> sep c) cs # fs" by blast
    with False show ?thesis by simp
  qed
qed

lemma first_field_eq: "first_field body = Some (takeWhile (\<lambda>c. \<not> js_whitespace c) body)"
proof -
  from js_split_head [of js_whitespace body] obtain fs
    where "js_split js_whitespace body = takeWhile (\<lambda>c. \<not> js_whitespace c) body # fs" by blast
  then show ?thesis by (simp add: first_field_def)
qed

lemma then_do_effects_prefix: "\<exists>more. effects (then_do now r k) = effects r @ more"
  by (cases "result r" rule: promise_cases) (simp_all add: then_do_steps)

lemma getLima_manifest:
  assumes "resource_done w (lima_url plat @ ''.sha512sum'') now = Some (s, Fulfilled body)"
  shows "take 2 (effects (getLima h w plat now)) =
     [(now, GetResource (lima_url plat @ ''.sha512sum'')),
      (max now s, Download (lima_descriptor h plat (Some (takeWhile (\<lambda>c. \<not> js_whitespace c) body))))]"
proof -
  let ?d = "lima_descriptor h plat (Some (takeWhile (\<lambda>c. \<not> js_whitespace c) body))"
  let ?k = "\<lambda>t2 (_::unit). then_do t2 (mkdir w (cwd h @ [''resources'', plat] @ [''lima'']) t2)
       (\<lambda>t3 (_::unit). extract_archive w
           (cwd h @ [''resources'', plat] @ [''lima-'' @ limaTag @ ''.'' @ plat @ ''.tgz''])
           (cwd h @ [''resources'', plat] @ [''lima'']) t3)"
  from then_do_effects_prefix [of "max now s" "call_download w ?d (max now s)" ?k]
  obtain more where more: "effects (then_do (max now s) (call_download w ?d (max now s)) ?k) =
      [(max now s, Download ?d)] @ more"
    by (auto simp: call_download_def)
  have r: "result (call_getResource w (lima_url plat @ ''.sha512sum'') now) = Some (s, Fulfilled body)"
    using assms by (simp add: call_getResource_def)
  have "effects (getLima h w plat now) =
      [(now, GetResource (lima_url plat @ ''.sha512sum''))] @
      effects (then_do (max now s) (call_download w ?d (max now s)) ?k)"
    unfolding getLima_def then_do_fulfilled [OF r]
    by (simp add: Let_def first_field_eq call_getResource_def)
  with more show ?thesis by simp
qed

lemma getAlpineLima_manifest:
  assumes "resource_done w (alpine_url ar @ ''.sha512sum'') now = Some (s, Fulfilled body)"
  shows "take 2 (effects (getAlpineLima h w ar plat now)) =
     [(now, GetResource (alpine_url ar @ ''.sha512sum'')),
      (max now s, Download (alpine_descriptor h ar plat (Some (takeWhile (\<lambda>c. \<not> js_whitespace c) body))))]"
proof -
  have r: "result (call_getResource w (alpine_url ar @ ''.sha512sum'') now) = Some (s, Fulfilled body)"
    using assms by (simp add: call_getResource_def)
  show ?thesis
    unfolding getAlpineLima_def then_do_fulfilled [OF r]
    by (simp add: first_field_eq call_getResource_def call_download_def)
qed

lemma getLima_no_manifest:
  assumes "resource_done w (lima_url plat @ ''.sha512sum'') now = Some (s, Rejected e)"
  shows "getLima h w plat now =
     \<lparr>effects = [(now, GetResource (lima_url plat @ ''.sha512sum''))],
      result = Some (max now s, Rejected e)\<rparr>"
proof -
  have r: "result (call_getResource w (lima_url plat @ ''.sha512sum'') now) = Some (s, Rejected e)"
    using assms by (simp add: call_getResource_def)
  show ?thesis
    unfolding getLima_def then_do_rejected [OF r] by (simp add: call_getResource_def)
qed

lemma getAlpineLima_no_manifest:
  assumes "resource_done w (alpine_url ar @ ''.sha512sum'') now = Some (s, Rejected e)"
  shows "getAlpineLima h w ar plat now =
     \<lparr>effects = [(now, GetResource (alpine_url ar @ ''.sha512sum''))],
      result = Some (max now s, Rejected e)\<rparr>"
proof -
  have r: "result (call_getResource w (alpine_url ar @ ''.sha512sum'') now) = Some (s, Rejected e)"
    using assms by (simp add: call_getResource_def)
  show ?thesis
    unfolding getAlpineLima_def then_do_rejected [OF r] by (simp add: call_getResource_def)
qed

text \<open>
  Claim C8. \<open>getLima\<close> and \<open>getAlpineLima\<close> take no checksum from their caller. Each first
  asks \<open>getResource\<close> for the resource's URL with \<open>.sha512sum\<close> appended, passing the URL
  and nothing else. Whatever body comes back, the next effect is the call of \<open>download\<close>
  for the resource's URL, at the time the manifest arrived, with the algorithm \<open>sha512\<close>
  and, as the expected checksum, the body up to its first white space character. When
  the manifest request is rejected, the function is rejected with the same error and
  \<open>download\<close> is not called.
\<close>

theorem checksum_from_manifest:
  "(\<forall>s body. resource_done w (lima_url plat @ ''.sha512sum'') now = Some (s, Fulfilled body) \<longrightarrow>
      take 2 (effects (getLima h w plat now)) =
        [(now, GetResource (lima_url plat @ ''.sha512sum'')),
         (max now s, Download
            \<lparr>url = lima_url plat,
             dest = cwd h @ [''resources'', plat, ''lima-v1.23.'' @ plat @ ''.tgz''],
             expectedChecksum = Some (takeWhile (\<lambda>c. \<not> js_whitespace c) body),
             checksumAlgorithm = ''sha512'',
             access = 2\<rparr>)])
   \<and> (\<forall>s body. resource_done w (alpine_url ar @ ''.sha512sum'') now = Some (s, Fulfilled body) \<longrightarrow>
      take 2 (effects (getAlpineLima h w ar plat now)) =
        [(now, GetResource (alpine_url ar @ ''.sha512sum'')),
         (max now s, Download
            \<lparr>url = alpine_url ar,
             dest = cwd h @ [''resources'', plat, ''alpine-lima-v0.2.16-rd-3.15.4.iso''],
             expectedChecksum = Some (takeWhile (\<lambda>c. \<not> js_whitespace c) body),
             checksumAlgorithm = ''sha512'',
             access = 2\<rparr>)])
   \<and> (\<forall>s e. resource_done w (lima_url plat @ ''.sha512sum'') now = Some (s, Rejected e) \<longrightarrow>
      getLima h w plat now =
        \<lparr>effects = [(now, GetResource (lima_url plat @ ''.sha512sum''))],
         result = Some (max now s, Rejected e)\<rparr>)
   \<and> (\<forall>s e. resource_done w (alpine_url ar @ ''.sha512sum'') now = Some (s, Rejected e) \<longrightarrow>
      getAlpineLima h w ar plat now =
        \<lparr>effects = [(now, GetResource (alpine_url ar @ ''.sha512sum''))],
         result = Some (max now s, Rejected e)\<rparr>)"
proof -
  have dl: "lima_descriptor h plat x =
      \<lparr>url = lima_url plat,
       dest = cwd h @ [''resources'', plat, ''lima-v1.23.'' @ plat @ ''.tgz''],
       expectedChecksum = x, checksumAlgorithm = ''sha512'', access = 2\<rparr>" for x
    by (simp add: lima_descriptor_def limaTag_def W_OK_def)
  have da: "alpine_descriptor h ar plat x =
      \<lparr>url = alpine_url ar,
       dest = cwd h @ [''resources'', plat, ''alpine-lima-v0.2.16-rd-3.15.4.iso''],
       expectedChecksum = x, checksumAlgorithm = ''sha512'', access = 2\<rparr>" for x
    by (simp add: alpine_descriptor_def alpineLimaTag_def alpineLimaEdition_def
        alpineLimaVersion_def W_OK_def)
  have a: "\<forall>s body. resource_done w (lima_url plat @ ''.sha512sum'') now = Some (s, Fulfilled body) \<longrightarrow>
      take 2 (effects (getLima h w plat now)) =
        [(now, GetResource (lima_url plat @ ''.sha512sum'')),
         (max now s, Download
            \<lparr>url = lima_url plat,
             dest = cwd h @ [''resources'', plat, ''lima-v1.23.'' @ plat @ ''.tgz''],
             expectedChecksum = Some (takeWhile (\<lambda>c. \<not> js_whitespace c) body),
             checksumAlgorithm = ''sha512'',
             access = 2\<rparr>)]"
    using getLima_manifest [of w plat now _ _ h] by (simp only: dl) blast
  have b: "\<forall>s body. resource_done w (alpine_url ar @ ''.sha512sum'') now = Some (s, Fulfilled body) \<longrightarrow>
      take 2 (effects (getAlpineLima h w ar plat now)) =
        [(now, GetResource (alpine_url ar @ ''.sha512sum'')),
         (max now s, Download
            \<lparr>url = alpine_url ar,
             dest = cwd h @ [''resources'', plat, ''alpine-lima-v0.2.16-rd-3.15.4.iso''],
             expectedChecksum = Some (takeWhile (\<lambda>c. \<not> js_whitespace c) body),
             checksumAlgorithm = ''sha512'',
             access = 2\<rparr>)]"
    using getAlpineLima_manifest [of w ar now _ _ h plat] by (simp only: da) blast
  have c: "\<forall>s e. resource_done w (lima_url plat @ ''.sha512sum'') now = Some (s, Rejected e) \<longrightarrow>
      getLima h w plat now =
        \<lparr>effects = [(now, GetResource (lima_url plat @ ''.sha512sum''))],
         result = Some (max now s, Rejected e)\<rparr>"
    using getLima_no_manifest [of w plat now _ _ h] by blast
  have d: "\<forall>s e. resource_done w (alpine_url ar @ ''.sha512sum'') now = Some (s, Rejected e) \<longrightarrow>
      getAlpineLima h w ar plat now =
        \<lparr>effects = [(now, GetResource (alpine_url ar @ ''.sha512sum''))],
         result = Some (max now s, Rejected e)\<rparr>"
    using getAlpineLima_no_manifest [of w ar now _ _ h plat] by blast
  from a b c d show ?thesis by (intro conjI)
qed

lemma manifest_body_field:
  "takeWhile (\<lambda>c. \<not> js_whitespace c)
     [0x61, 0x62, 0x31, 0x32, 0x20, 0x20, 0x66, 0x2E, 0x74, 0x67, 0x7A, 0x0A] =
   [0x61, 0x62, 0x31, 0x32]"
  by (simp add: js_whitespace_def)

theorem checksum_from_manifest_witness:
  "resource_done manifest_world (lima_url ''macos'' @ ''.sha512sum'') 0 =
     Some (2, Fulfilled [0x61, 0x62, 0x31, 0x32, 0x20, 0x20, 0x66, 0x2E, 0x74, 0x67, 0x7A, 0x0A])
   \<and> take 2 (effects (getLima mac_host manifest_world ''macos'' 0)) =
       [(0, GetResource (lima_url ''macos'' @ ''.sha512sum'')),
        (2, Download
           \<lparr>url = lima_url ''macos'',
            dest = [''work'', ''resources'', ''macos'', ''lima-v1.23.macos.tgz''],
            expectedChecksum = Some [0x61, 0x62, 0x31, 0x32],
            checksumAlgorithm = ''sha512'',
            access = 2\<rparr>)]
   \<and> resource_done offline_world (alpine_url ''x86_64'' @ ''.sha512sum'') 0 =
       Some (1, Rejected (Foreign 404))
   \<and> getAlpineLima mac_host offline_world ''x86_64'' ''macos'' 0 =
       \<lparr>effects = [(0, GetResource (alpine_url ''x86_64'' @ ''.sha512sum''))],
        result = Some (1, Rejected (Foreign 404))\<rparr>"
proof -
  have m: "resource_done manifest_world (lima_url ''macos'' @ ''.sha512sum'') 0 =
     Some (2, Fulfilled [0x61, 0x62, 0x31, 0x32, 0x20, 0x20, 0x66, 0x2E, 0x74, 0x67, 0x7A, 0x0A])"
    by (simp add: manifest_world_def)
  have n: "resource_done offline_world (alpine_url ''x86_64'' @ ''.sha512sum'') 0 =
       Some (1, Rejected (Foreign 404))"
    by (simp add: offline_world_def)
  have cw: "cwd mac_host = [''work'']" by (simp add: mac_host_def)
  note t1 = checksum_from_manifest [where w = manifest_world and plat = "''macos''" and now = 0
      and h = mac_host and ar = "''x86_64''"]
  note t2 = checksum_from_manifest [where w = offline_world and plat = "''macos''" and now = 0
      and h = mac_host and ar = "''x86_64''"]
  from t1 have "\<forall>s body. resource_done manifest_world (lima_url ''macos'' @ ''.sha512sum'') 0 = Some (s, Fulfilled body) \<longrightarrow>
      take 2 (effects (getLima mac_host manifest_world ''macos'' 0)) =
        [(0, GetResource (lima_url ''macos'' @ ''.sha512sum'')),
         (max 0 s, Download
            \<lparr>url = lima_url ''macos'',
             dest = cwd mac_host @ [''resources'', ''macos'', ''lima-v1.23.'' @ ''macos'' @ ''.tgz''],
             expectedChecksum = Some (takeWhile (\<lambda>c. \<not> js_whitespace c) body),
             checksumAlgorithm = ''sha512'',
             access = 2\<rparr>)]"
    by blast
  from this [rule_format, OF m]
  have a: "take 2 (effects (getLima mac_host manifest_world ''macos'' 0)) =
       [(0, GetResource (lima_url ''macos'' @ ''.sha512sum'')),
        (2, Download
           \<lparr>url = lima_url ''macos'',
            dest = [''work'', ''resources'', ''macos'', ''lima-v1.23.macos.tgz''],
            expectedChecksum = Some [0x61, 0x62, 0x31, 0x32],
            checksumAlgorithm = ''sha512'',
            access = 2\<rparr>)]"
    by (simp only: manifest_body_field cw) simp
  from t2 have "\<forall>s e. resource_done offline_world (alpine_url ''x86_64'' @ ''.sha512sum'') 0 = Some (s, Rejected e) \<longrightarrow>
      getAlpineLima mac_host offline_world ''x86_64'' ''macos'' 0 =
        \<lparr>effects = [(0, GetResource (alpine_url ''x86_64'' @ ''.sha512sum''))],
         result = Some (max 0 s, Rejected e)\<rparr>"
    by blast
  from this [rule_format, OF n]
  have b: "getAlpineLima mac_host offline_world ''x86_64'' ''macos'' 0 =
       \<lparr>effects = [(0, GetResource (alpine_url ''x86_64'' @ ''.sha512sum''))],
        result = Some (1, Rejected (Foreign 404))\<rparr>"
    by simp
  from m a n b show ?thesis by (intro conjI)
qed

lemma first_rejection_Plain:
  "first_rejection (map (promise_resolve now) (map Plain xs)) = None"
  by (induction xs) (simp_all add: promise_resolve_def)

lemma all_fulfilled_Plain:
  "all_fulfilled now (map (promise_resolve now) (map Plain xs)) = Some (now, xs)"
  by (induction xs) (simp_all add: promise_resolve_def)

lemma promise_all_Plain: "promise_all now (map Plain xs) = Some (now, Fulfilled xs)"
  by (simp add: promise_all_def Let_def first_rejection_Plain all_fulfilled_Plain del: map_map)

text \<open>
  Claim C10. The promise \<open>run\<close> returns is fulfilled at the time of the call, with the
  arrays of promises it has built, the array for the host's platform among them,
  whatever the promises of \<open>getLima\<close> and \<open>getAlpineLima\<close> in these arrays do or will do; it
  is never rejected.
\<close>

theorem run_ignores_downloads:
  "result (run h w now) = Some (now, Fulfilled (run_arrays h w now))
   \<and> [getLima h w (if platform h = ''darwin'' then ''macos'' else platform h) now,
       getAlpineLima h w ''x86_64'' (if platform h = ''darwin'' then ''macos'' else platform h) now]
      \<in> set (run_arrays h w now)
   \<and> (\<forall>t e. result (run h w now) \<noteq> Some (t, Rejected e))"
proof -
  have a: "result (run h w now) = Some (now, Fulfilled (run_arrays h w now))"
    by (simp add: run_def Let_def promise_all_Plain)
  have b: "[getLima h w (if platform h = ''darwin'' then ''macos'' else platform h) now,
       getAlpineLima h w ''x86_64'' (if platform h = ''darwin'' then ''macos'' else platform h) now]
      \<in> set (run_arrays h w now)"
    by (simp add: run_arrays_def Let_def)
  from a have c: "\<forall>t e. result (run h w now) \<noteq> Some (t, Rejected e)" by simp
  from a b c show ?thesis by (intro conjI)
qed

theorem run_ignores_downloads_witness:
  "result (getLima mac_host offline_world ''macos'' 0) = Some (1, Rejected (Foreign 404))
   \<and> result (getAlpineLima mac_host offline_world ''x86_64'' ''macos'' 0) = Some (1, Rejected (Foreign 404))
   \<and> result (run mac_host offline_world 0) = Some (0, Fulfilled (run_arrays mac_host offline_world 0))
   \<and> length (run_arrays mac_host offline_world 0) = 2"
proof -
  have r: "resource_done offline_world u 0 = Some (1, Rejected (Foreign 404))" for u
    by (simp add: offline_world_def)
  have a: "result (getLima mac_host offline_world ''macos'' 0) = Some (1, Rejected (Foreign 404))"
    by (simp add: getLima_no_manifest [OF r])
  have b: "result (getAlpineLima mac_host offline_world ''x86_64'' ''macos'' 0) = Some (1, Rejected (Foreign 404))"
    by (simp add: getAlpineLima_no_manifest [OF r])
  from run_ignores_downloads [of mac_host offline_world 0]
  have c: "result (run mac_host offline_world 0) = Some (0, Fulfilled (run_arrays mac_host offline_world 0))"
    by blast
  have d: "length (run_arrays mac_host offline_world 0) = 2"
    by (simp add: run_arrays_def mac_host_def truthy_def Let_def)
  from a b c d show ?thesis by (intro conjI)
qed

section \<open>Fetching a resource twice\<close>

lemma download_present:
  "files st (destination r) = Some c \<Longrightarrow> digest (algorithm r) c = expected r \<Longrightarrow>
   download digest remote r st = (Inr (), st)"
  by (simp add: download_def)

lemma transfer_correct:
  assumes "remote (source r) = Some body" and "digest (algorithm r) body = expected r"
  shows "fst (transfer digest remote r st) = Inr ()
     \<and> files (snd (transfer digest remote r st)) (destination r) = Some body
     \<and> requests (snd (transfer digest remote r st)) = requests st @ [source r]"
  using assms by (simp add: transfer_def Let_def split: option.splits)

lemma download_correct:
  assumes "remote (source r) = Some body" and "digest (algorithm r) body = expected r"
  shows "fst (download digest remote r st) = Inr ()
     \<and> (\<exists>c. files (snd (download digest remote r st)) (destination r) = Some c
            \<and> digest (algorithm r) c = expected r)"
proof (cases "\<exists>c. files st (destination r) = Some c \<and> digest (algorithm r) c = expected r")
  case True
  then show ?thesis by (auto simp: download_def)
next
  case False
  then have "download digest remote r st = transfer digest remote r st"
    by (auto simp: download_def split: option.splits)
  with transfer_correct [where remote = remote and digest = digest and r = r and body = body and st = st, OF assms] assms(2) show ?thesis by simp
qed

text \<open>
  Claim C7. When a file is at the destination and its checksum, computed with the
  descriptor's algorithm, is the expected one, the Fetcher succeeds and leaves everything
  as it is: no network request is issued. When the network holds at the source URL a body
  whose checksum is the expected one, a first fetch succeeds, and a second fetch of the
  same descriptor right after it succeeds as well, changes nothing and issues no request.
\<close>

theorem fetch_idempotent:
  "(files st (destination r) = Some c \<and> digest (algorithm r) c = expected r \<longrightarrow>
      download digest remote r st = (Inr (), st)
    \<and> requests (snd (download digest remote r st)) = requests st)
   \<and> (remote (source r) = Some body \<and> digest (algorithm r) body = expected r \<longrightarrow>
      fst (download digest remote r st) = Inr ()
    \<and> download digest remote r (snd (download digest remote r st)) =
        (Inr (), snd (download digest remote r st))
    \<and> requests (snd (download digest remote r (snd (download digest remote r st)))) =
        requests (snd (download digest remote r st)))"
proof -
  have a: "files st (destination r) = Some c \<and> digest (algorithm r) c = expected r \<longrightarrow>
      download digest remote r st = (Inr (), st)
    \<and> requests (snd (download digest remote r st)) = requests st"
    by (simp add: download_present)
  have b: "remote (source r) = Some body \<and> digest (algorithm r) body = expected r \<longrightarrow>
      fst (download digest remote r st) = Inr ()
    \<and> download digest remote r (snd (download digest remote r st)) =
        (Inr (), snd (download digest remote r st))
    \<and> requests (snd (download digest remote r (snd (download digest remote r st)))) =
        requests (snd (download digest remote r st))"
  proof
    assume h: "remote (source r) = Some body \<and> digest (algorithm r) body = expected r"
    then have h1: "remote (source r) = Some body" and h2: "digest (algorithm r) body = expected r"
      by simp_all
    from download_correct [where remote = remote and digest = digest and r = r and body = body and st = st, OF h1 h2] obtain c'
      where ok: "fst (download digest remote r st) = Inr ()"
        and c': "files (snd (download digest remote r st)) (destination r) = Some c'"
          "digest (algorithm r) c' = expected r"
      by blast
    from download_present [where digest = digest and r = r and remote = remote
      and st = "snd (download digest remote r st)" and c = c', OF c']
    have again: "download digest remote r (snd (download digest remote r st)) =
        (Inr (), snd (download digest remote r st))" .
    from ok again show "fst (download digest remote r st) = Inr ()
      \<and> download digest remote r (snd (download digest remote r st)) =
          (Inr (), snd (download digest remote r st))
      \<and> requests (snd (download digest remote r (snd (download digest remote r st)))) =
          requests (snd (download digest remote r st))"
      by simp
  qed
  from a b show ?thesis by (intro conjI)
qed

theorem fetch_idempotent_witness:
  "example_remote (source example_request) = Some [1, 2, 3]
   \<and> example_digest (algorithm example_request) [1, 2, 3] = expected example_request
   \<and> fst (download example_digest example_remote example_request fresh_storage) = Inr ()
   \<and> requests (snd (download example_digest example_remote example_request fresh_storage)) =
       [''https://example/test.tar.gz'']
   \<and> fst (download example_digest example_remote example_request
        (snd (download example_digest example_remote example_request fresh_storage))) = Inr ()
   \<and> requests (snd (download example_digest example_remote example_request
        (snd (download example_digest example_remote example_request fresh_storage)))) =
       [''https://example/test.tar.gz'']"
proof -
  have h1: "example_remote (source example_request) = Some [1, 2, 3]"
    by (simp add: example_remote_def example_request_def)
  have h2: "example_digest (algorithm example_request) [1, 2, 3] = expected example_request"
    by (simp add: example_digest_def example_request_def)
  have first: "requests (snd (download example_digest example_remote example_request fresh_storage)) =
       [''https://example/test.tar.gz'']"
    by (simp add: download_def transfer_def Let_def fresh_storage_def h1 h2)
       (simp add: example_request_def)
  from fetch_idempotent [where remote = example_remote and digest = example_digest
      and r = example_request and st = fresh_storage and body = "[1, 2, 3]" and c = "[]"] h1 h2
  have t: "fst (download example_digest example_remote example_request fresh_storage) = Inr ()
    \<and> download example_digest example_remote example_request
        (snd (download example_digest example_remote example_request fresh_storage)) =
        (Inr (), snd (download example_digest example_remote example_request fresh_storage))"
    by blast
  from t first h1 h2 show ?thesis by simp
qed

end
